theory Spec2Isabelle
  imports Complex_Main "HOL-Library.Word"
begin

section \<open>JavaScript values used by the summary pipeline\<close>

text \<open>
  A JavaScript string is a sequence of UTF-16 code units. The Chinese literals of the
  source are written out as their code units.
\<close>

type_synonym jsstring = "16 word list"

text \<open>
  The records that flow through the scheduler are plain JSON objects: the templates built
  by the comparer, the objects returned by \<open>JSON.parse\<close>, and the children read back
  from the summary store. A number is given by its value, a rational (every finite double
  is one).
\<close>

datatype json =
    JNull
  | JBool bool
  | JNum rat
  | JStr jsstring
  | JArr "json list"
  | JObj "(string \<times> json) list"

datatype js_error =
    TypeError
  | EmptyResponse
  | ApiFailure nat
  | CollaboratorFailure

text \<open>
  Property read \<open>o.k\<close> on a value: \<open>None\<close> stands for \<open>undefined\<close>. The keys of an
  object are taken to be distinct.
\<close>

fun js_get :: "json \<Rightarrow> string \<Rightarrow> json option" where
  "js_get (JObj kvs) k = map_of kvs k"
| "js_get _ k = None"

text \<open>Truthiness, as used by \<open>c && ...\<close> and \<open>!x\<close>.\<close>

fun js_truthy :: "json \<Rightarrow> bool" where
  "js_truthy JNull = False"
| "js_truthy (JBool b) = b"
| "js_truthy (JNum n) = (n \<noteq> 0)"
| "js_truthy (JStr s) = (s \<noteq> [])"
| "js_truthy (JArr xs) = True"
| "js_truthy (JObj kvs) = True"

text \<open>
  White space in the sense of \<open>String.prototype.trim\<close> and of the regular expression
  class \<open>\s\<close>: the WhiteSpace and LineTerminator code points.
\<close>

definition js_is_space :: "16 word \<Rightarrow> bool" where
  "js_is_space c \<longleftrightarrow>
     c \<in> set [0x0009, 0x000A, 0x000B, 0x000C, 0x000D, 0x0020, 0x00A0, 0x1680,
               0x2000, 0x2001, 0x2002, 0x2003, 0x2004, 0x2005, 0x2006, 0x2007,
               0x2008, 0x2009, 0x200A, 0x2028, 0x2029, 0x202F, 0x205F, 0x3000, 0xFEFF]"

definition js_trim :: "jsstring \<Rightarrow> jsstring" where
  "js_trim s = rev (dropWhile js_is_space (rev (dropWhile js_is_space s)))"

subsection \<open>String constants of the source\<close>

definition str_behavior :: jsstring where
  "str_behavior = [0x884C, 0x4E3A]"

definition str_screen_unchanged :: jsstring where
  "str_screen_unchanged = [0x5C4F, 0x5E55, 0x65E0, 0x53D8, 0x5316]"

definition str_skip_reason_2min :: jsstring where
  "str_skip_reason_2min =
     [0x622A, 0x56FE, 0x5B8C, 0x5168, 0x4E00, 0x81F4, 0xFF0C, 0x5C4F, 0x5E55, 0x65E0, 0x53D8, 0x5316]"

definition str_continue :: jsstring where
  "str_continue = [0x7EE7, 0x7EED]"

definition str_no_operation :: jsstring where
  "str_no_operation = [0x65E0, 0x64CD, 0x4F5C]"

definition str_uncertain :: jsstring where
  "str_uncertain = [0x4E0D, 0x786E, 0x5B9A]"

definition str_none :: jsstring where
  "str_none = [0x65E0]"

definition str_no_clear_change :: jsstring where
  "str_no_clear_change = [0x65E0, 0x660E, 0x786E, 0x53D8, 0x5316]"

definition str_no_progress :: jsstring where
  "str_no_progress = [0x65E0, 0x660E, 0x663E, 0x8FDB, 0x5C55]"

definition str_high :: jsstring where
  "str_high = [0x9AD8]"

definition str_skip_reason_10min :: jsstring where
  "str_skip_reason_10min =
     [0x6240, 0x6709, 0x0032, 0x006D, 0x0069, 0x006E, 0x5B50, 0x7EA7, 0x5747, 0x4E3A, 0x65E0,
      0x53D8, 0x5316, 0xFF0C, 0x8DF3, 0x8FC7, 0x0041, 0x0050, 0x0049, 0x8BF7, 0x6C42]"

definition str_skip_reason_1h :: jsstring where
  "str_skip_reason_1h =
     [0x6240, 0x6709, 0x0031, 0x0030, 0x006D, 0x0069, 0x006E, 0x5B50, 0x7EA7, 0x5747, 0x4E3A,
      0x65E0, 0x53D8, 0x5316, 0xFF0C, 0x8DF3, 0x8FC7, 0x0041, 0x0050, 0x0049, 0x8BF7, 0x6C42]"

definition str_no_activity :: jsstring where
  "str_no_activity =
     [0x65E0, 0x6D3B, 0x52A8, 0x0020, 0x2014, 0x0020, 0x5C4F, 0x5E55, 0x6301, 0x7EED, 0x65E0,
      0x53D8, 0x5316]"

definition chr_quote :: "16 word" where
  "chr_quote = 0x0022"

definition chr_newline :: "16 word" where
  "chr_newline = 0x000A"

section \<open>ScreenshotComparer (screenshot-comparer.js)\<close>

text \<open>
  A screenshot as returned by the reader: the bytes of the image file and the capture
  time (milliseconds since the epoch).
\<close>

record screenshot =
  buffer :: "8 word list"
  timestamp :: int

text \<open>
  The loop \<open>for (i = 1; i < screenshots.length; i++)\<close> of \<open>allIdentical\<close>: it returns
  \<open>false\<close> at the first buffer that \<open>Buffer.equals\<close> finds different from the base. The
  argument is the array the screenshot reader returned, never \<open>null\<close>.
\<close>

fun compare_with_base :: "8 word list \<Rightarrow> screenshot list \<Rightarrow> bool" where
  "compare_with_base baseBuffer [] = True"
| "compare_with_base baseBuffer (s # rest) =
     (if buffer s \<noteq> baseBuffer then False else compare_with_base baseBuffer rest)"

fun allIdentical :: "screenshot list \<Rightarrow> bool" where
  "allIdentical [] = False"
| "allIdentical [s] = False"
| "allIdentical (s0 # s1 # rest) = compare_with_base (buffer s0) (s1 # rest)"

text \<open>
  \<open>_extractWindowNameFromWindowText\<close>: the first line of the text; if it starts with a
  quoted, non-empty name (the regular expression \<open>^"([^"]+)"\<close>) that name, otherwise the
  trimmed line.
\<close>

definition extractWindowNameFromWindowText :: "jsstring \<Rightarrow> jsstring" where
  "extractWindowNameFromWindowText windowText =
     (if windowText = [] then str_uncertain
      else
        let firstLine = takeWhile (\<lambda>c. c \<noteq> chr_newline) windowText in
        (case firstLine of
           [] \<Rightarrow> js_trim firstLine
         | c # after \<Rightarrow>
             let name = takeWhile (\<lambda>d. d \<noteq> chr_quote) after;
                 closing = dropWhile (\<lambda>d. d \<noteq> chr_quote) after
             in if c = chr_quote \<and> name \<noteq> [] \<and> closing \<noteq> [] then name
                else js_trim firstLine))"

text \<open>
  \<open>buildNoChange2minRecord\<close>. Reading \<open>lastShot.timestamp\<close> of an empty array is a
  TypeError in the source.
\<close>

definition buildNoChange2minRecord :: "screenshot list \<Rightarrow> jsstring \<Rightarrow> js_error + json" where
  "buildNoChange2minRecord screenshots activeWindowText =
     (if screenshots = [] then Inl TypeError
      else Inr (JObj
        [(''no_change'', JBool True),
         (''skip_reason'', JStr str_skip_reason_2min),
         (''category_type'', JArr [JStr str_behavior]),
         (''category_name'', JArr [JStr str_screen_unchanged]),
         (''subtask_name'', JArr [JStr []]),
         (''task_status'', JStr str_continue),
         (''interaction_mode'', JStr str_no_operation),
         (''browse_content'', JStr str_uncertain),
         (''operate_action'', JStr str_none),
         (''core_action'', JStr str_screen_unchanged),
         (''context'', JStr (if activeWindowText \<noteq> []
                             then extractWindowNameFromWindowText activeWindowText
                             else str_uncertain)),
         (''content_change'', JStr str_no_clear_change),
         (''progress'', JStr str_no_progress),
         (''blockers'', JStr str_none),
         (''next_intent'', JStr str_uncertain),
         (''confidence'', JStr str_high),
         (''duration_minutes'', JNum 2),
         (''screenshots_compared'', JNum (of_nat (length screenshots)))]))"

subsection \<open>Conversion to string, as \<open>Array.prototype.join\<close> performs it\<close>

definition str_null :: jsstring where
  "str_null = [0x006E, 0x0075, 0x006C, 0x006C]"

definition str_true :: jsstring where
  "str_true = [0x0074, 0x0072, 0x0075, 0x0065]"

definition str_false :: jsstring where
  "str_false = [0x0066, 0x0061, 0x006C, 0x0073, 0x0065]"

definition str_object_Object :: jsstring where
  "str_object_Object =
     [0x005B, 0x006F, 0x0062, 0x006A, 0x0065, 0x0063, 0x0074, 0x0020,
      0x004F, 0x0062, 0x006A, 0x0065, 0x0063, 0x0074, 0x005D]"

definition str_comma_space :: jsstring where
  "str_comma_space = [0x002C, 0x0020]"

fun join_with :: "jsstring \<Rightarrow> jsstring list \<Rightarrow> jsstring" where
  "join_with sep [] = []"
| "join_with sep [x] = x"
| "join_with sep (x # y # rest) = x @ sep @ join_with sep (y # rest)"

text \<open>
  The conversion of a number to a string (\<open>Number::toString\<close>, with its exponent notation
  for large and small magnitudes) is the host's and is taken as a parameter.
\<close>

fun js_to_string :: "(rat \<Rightarrow> jsstring) \<Rightarrow> json \<Rightarrow> jsstring" where
  "js_to_string num JNull = str_null"
| "js_to_string num (JBool b) = (if b then str_true else str_false)"
| "js_to_string num (JNum n) = num n"
| "js_to_string num (JStr s) = s"
| "js_to_string num (JArr xs) =
     join_with [0x002C] (map (\<lambda>x. if x = JNull then [] else js_to_string num x) xs)"
| "js_to_string num (JObj kvs) = str_object_Object"

text \<open>
  \<open>[...new Set(values)]\<close>: first occurrences in insertion order. Primitive values are
  compared by value; every array or object read from JSON is a distinct reference.
\<close>

fun js_primitive :: "json \<Rightarrow> bool" where
  "js_primitive (JArr xs) = False"
| "js_primitive (JObj kvs) = False"
| "js_primitive v = True"

definition js_set_values :: "json list \<Rightarrow> json list" where
  "js_set_values values =
     fold (\<lambda>v acc. if js_primitive v \<and> v \<in> set acc then acc else acc @ [v]) values []"

subsection \<open>The no-change templates of the upper tiers\<close>

text \<open>
  \<open>recent2min.map(s => s.context)\<close>: reading a property of \<open>null\<close> is a TypeError.
\<close>

fun map_context :: "json list \<Rightarrow> js_error + json option list" where
  "map_context [] = Inr []"
| "map_context (s # rest) =
     (if s = JNull then Inl TypeError
      else (case map_context rest of
              Inl e \<Rightarrow> Inl e
            | Inr cs \<Rightarrow> Inr (js_get s ''context'' # cs)))"

definition keep_context :: "json option \<Rightarrow> bool" where
  "keep_context c = (case c of None \<Rightarrow> False | Some v \<Rightarrow> js_truthy v \<and> v \<noteq> JStr str_uncertain)"

definition buildNoChange10minRecord ::
  "(rat \<Rightarrow> jsstring) \<Rightarrow> json list \<Rightarrow> js_error + json" where
  "buildNoChange10minRecord num recent2min =
     (case map_context recent2min of
        Inl e \<Rightarrow> Inl e
      | Inr cs \<Rightarrow>
          let contexts = map the (filter keep_context cs);
              contextStr = (if length contexts > 0
                            then join_with str_comma_space (map (js_to_string num) (js_set_values contexts))
                            else str_uncertain)
          in Inr (JObj
            [(''no_change'', JBool True),
             (''skip_reason'', JStr str_skip_reason_10min),
             (''task_main'', JStr str_no_activity),
             (''activity_timeline'', JArr []),
             (''key_progress'', JStr str_no_progress),
             (''key_objects'', JStr contextStr),
             (''content_change'', JStr str_no_clear_change),
             (''blockers'', JStr str_none),
             (''next_step'', JStr str_uncertain),
             (''confidence'', JStr str_high),
             (''no_change_2min_count'', JNum (of_nat (length recent2min)))]))"

definition buildNoChange1hRecord :: "json list \<Rightarrow> json" where
  "buildNoChange1hRecord recent10min =
     JObj
       [(''no_change'', JBool True),
        (''skip_reason'', JStr str_skip_reason_1h),
        (''achievements'', JArr []),
        (''task_chain'', JStr str_no_activity),
        (''time_distribution'', JArr []),
        (''miscellaneous'', JArr []),
        (''key_output'', JStr str_none),
        (''blockers'', JStr str_none),
        (''next_direction'', JStr str_uncertain),
        (''confidence'', JStr str_high),
        (''no_change_10min_count'', JNum (of_nat (length recent10min)))]"

text \<open>
  \<open>summaries.every(s => s.no_change === true)\<close>: stops at the first record whose flag is
  not the boolean \<open>true\<close>; reading the flag of \<open>null\<close> is a TypeError.
\<close>

fun every_no_change :: "json list \<Rightarrow> js_error + bool" where
  "every_no_change [] = Inr True"
| "every_no_change (s # rest) =
     (if s = JNull then Inl TypeError
      else if js_get s ''no_change'' = Some (JBool True) then every_no_change rest
      else Inr False)"

definition allNoChange :: "json list \<Rightarrow> js_error + bool" where
  "allNoChange summaries = (if length summaries = 0 then Inr False else every_no_change summaries)"

section \<open>GeminiClient (gemini-client.js)\<close>

record gemini_client =
  maxRetries :: int
  retryDelay :: int

text \<open>
  The constructor: \<open>config.max_retries || 3\<close> and \<open>(config.retry_delay || 2) * 1000\<close>;
  a missing setting is given as 0, which \<open>||\<close> treats the same way.
\<close>

definition new_gemini_client :: "int \<Rightarrow> int \<Rightarrow> gemini_client" where
  "new_gemini_client max_retries retry_delay =
     \<lparr>maxRetries = (if max_retries \<noteq> 0 then max_retries else 3),
      retryDelay = (if retry_delay \<noteq> 0 then retry_delay else 2) * 1000\<rparr>"

text \<open>
  What one call of \<open>genai.models.generateContent\<close> does: it rejects, or it resolves to a
  response whose \<open>text\<close> may be undefined and whose \<open>usageMetadata\<close> may be missing.
\<close>

datatype api_outcome =
    ApiThrows js_error
  | ApiResponds "jsstring option" "nat option"

record gen_response =
  response_text :: jsstring
  usageMetadata :: "nat option"

text \<open>The body of the \<open>try\<close> block of one attempt.\<close>

fun attempt_result :: "api_outcome \<Rightarrow> js_error + gen_response" where
  "attempt_result (ApiThrows e) = Inl e"
| "attempt_result (ApiResponds None usage) = Inl EmptyResponse"
| "attempt_result (ApiResponds (Some t) usage) =
     (if t = [] \<or> js_trim t = [] then Inl EmptyResponse
      else Inr \<lparr>response_text = t, usageMetadata = usage\<rparr>)"

text \<open>
  A run of \<open>generate\<close>: what it returns or throws, the delays it slept (milliseconds, in
  order), and the number of API calls it made.
\<close>

record gen_run =
  outcome :: "js_error + gen_response"
  sleeps :: "int list"
  attempts :: nat

text \<open>
  The loop \<open>for (attempt = 1; attempt <= this.maxRetries; attempt++)\<close>. The API is given
  as the outcome it produces at each attempt. After the loop \<open>lastError.message\<close> is read:
  with no attempt made \<open>lastError\<close> is \<open>null\<close> and that read is a TypeError.
\<close>

function generate_loop ::
  "gemini_client \<Rightarrow> (int \<Rightarrow> api_outcome) \<Rightarrow> int \<Rightarrow> js_error option \<Rightarrow> int list \<Rightarrow> gen_run"
where
  "generate_loop c api attempt lastError slept =
     (if attempt \<le> maxRetries c then
        (case attempt_result (api attempt) of
           Inr r \<Rightarrow> \<lparr>outcome = Inr r, sleeps = slept, attempts = nat attempt\<rparr>
         | Inl err \<Rightarrow>
             generate_loop c api (attempt + 1) (Some err)
               (if attempt < maxRetries c then slept @ [retryDelay c * attempt] else slept))
      else
        \<lparr>outcome = Inl (case lastError of None \<Rightarrow> TypeError | Some err \<Rightarrow> err),
         sleeps = slept, attempts = nat (attempt - 1)\<rparr>)"
  by pat_completeness auto
termination
  by (relation "measure (\<lambda>(c, api, attempt, lastError, slept). nat (maxRetries c + 1 - attempt))")
    auto

declare generate_loop.simps [simp del]

definition generate :: "gemini_client \<Rightarrow> (int \<Rightarrow> api_outcome) \<Rightarrow> gen_run" where
  "generate c api = generate_loop c api 1 None []"

text \<open>An API outcome with a blank response replaced by the error the client throws for it.\<close>

definition blank_as_failure :: "api_outcome \<Rightarrow> api_outcome" where
  "blank_as_failure out =
     (case attempt_result out of Inl e \<Rightarrow> ApiThrows e | Inr r \<Rightarrow> out)"

section \<open>SummaryScheduler\<close>

datatype tier = T2min | T10min | T1h

record tier_stats =
  count :: nat
  errors :: nat
  skipped :: nat

subsection \<open>Configuration and collaborators\<close>

datatype weekday = Sun | Mon | Tue | Wed | Thu | Fri | Sat

record schedule_config =
  schedule_enabled :: bool
  days :: "weekday list"
  start_time :: "nat \<times> nat"
  end_time :: "nat \<times> nat"

text \<open>The wall clock as \<open>_isAllowed\<close> reads it: \<open>getDay()\<close>, \<open>getHours()\<close>, \<open>getMinutes()\<close>.\<close>

record clock =
  day :: weekday
  hours :: nat
  minutes :: nat

text \<open>
  The configuration and the optional collaborators handed to the constructor. A collaborator
  that is \<open>null\<close> is a flag that is false.
\<close>

record config =
  schedule :: schedule_config
  base_enabled :: bool
  enabled_10min :: bool
  enabled_1h :: bool
  history_minutes :: nat
  has_comparer :: bool
  has_collector :: bool
  has_token_tracker :: bool
  client :: gemini_client

text \<open>
  The argument list of the prompt builder call whose result is passed to
  \<open>geminiClient.generate\<close>; the prompt text itself is not modelled.
\<close>

record gap_info =
  gapMinutes :: int
  lastSummaryTime :: int

datatype request =
    Build2min "screenshot list" "json list" "gap_info option" jsstring
  | Build10min "json list" "json list" jsstring
  | Build1h "json list" "json list" jsstring

text \<open>
  The scheduler object together with what its collaborators have been asked to do:
  \<open>saved\<close> lists the calls of \<open>summaryStore.save\<close>, \<open>requests\<close> the calls of
  \<open>geminiClient.generate\<close>, and \<open>suspended\<close> the pipeline invocations that are waiting at
  \<open>await geminiClient.generate(contents)\<close>, each with the timestamp it will save under.
\<close>

record state =
  timer :: "tier \<Rightarrow> bool"
  isRunning :: bool
  executing :: "tier \<Rightarrow> bool"
  stats :: "tier \<Rightarrow> tier_stats"
  saved :: "(tier \<times> int \<times> json) list"
  requests :: "(tier \<times> request) list"
  suspended :: "(tier \<times> int) list"

text \<open>
  A collaborator call inside a pipeline's \<open>try\<close> block may throw; the environment says at
  which collaborator, if at any.
\<close>

datatype site = AtReader | AtCollector | AtStoreRead | AtBuilder | AtStoreSave | AtTokenTracker

text \<open>
  What one timer fire finds in its environment: the clock, the arrays returned by the
  screenshot reader and by the store's read methods, the formatted focus-window text, the
  value of \<open>new Date()\<close> in milliseconds inside \<open>_detectTimeGap\<close> and where the timestamp
  of the record is taken, and the host's date parser and number-to-string conversion.
\<close>

record tick_env =
  clock_now :: clock
  screenshots_read :: "screenshot list"
  recent_read :: "json list"
  history_read :: "json list"
  window_text :: jsstring
  now_gap_ms :: int
  now_ms :: int
  date_parse :: "jsstring \<Rightarrow> int option"
  number_to_string :: "rat \<Rightarrow> jsstring"
  fault :: "site option"

text \<open>
  What the rest of an invocation finds when the awaited call settles: the outcome of the API
  at each attempt and the host's \<open>JSON.parse\<close> (\<open>None\<close> for a SyntaxError).
\<close>

record settle_env =
  api :: "int \<Rightarrow> api_outcome"
  json_parse :: "jsstring \<Rightarrow> json option"
  settle_fault :: "site option"

text \<open>How a \<open>try\<close> block is left: by return, by a throw, or suspended at the await.\<close>

datatype flow = Returned | Threw js_error | Awaiting int

subsection \<open>Constructor, start\<close>

definition new_scheduler :: state where
  "new_scheduler =
     \<lparr>timer = (\<lambda>t. False), isRunning = False, executing = (\<lambda>t. False),
      stats = (\<lambda>t. \<lparr>count = 0, errors = 0, skipped = 0\<rparr>),
      saved = [], requests = [], suspended = []\<rparr>"

definition tier_enabled :: "config \<Rightarrow> tier \<Rightarrow> bool" where
  "tier_enabled cfg t =
     (case t of T2min \<Rightarrow> base_enabled cfg | T10min \<Rightarrow> enabled_10min cfg | T1h \<Rightarrow> enabled_1h cfg)"

definition start :: "config \<Rightarrow> state \<Rightarrow> state" where
  "start cfg s =
     (if isRunning s then s
      else s\<lparr>isRunning := True,
             timer := (\<lambda>t. if tier_enabled cfg t then True else timer s t)\<rparr>)"

subsection \<open>The time gate\<close>

definition isAllowed :: "schedule_config \<Rightarrow> clock \<Rightarrow> bool" where
  "isAllowed sc now =
     (if \<not> schedule_enabled sc then True
      else if day now \<notin> set (days sc) then False
      else
        let currentMinutes = hours now * 60 + minutes now in
        currentMinutes \<ge> fst (start_time sc) * 60 + snd (start_time sc) \<and>
        currentMinutes \<le> fst (end_time sc) * 60 + snd (end_time sc))"

subsection \<open>Gap detection\<close>

text \<open>
  \<open>new Date(v).getTime()\<close>, with \<open>None\<close> for NaN: a string is parsed, a number is a time value
  if it is within the range of Date and is then truncated towards zero, arrays and objects
  are converted to a string first.
\<close>

definition js_truncate :: "rat \<Rightarrow> int" where
  "js_truncate q = (if q < 0 then - \<lfloor>- q\<rfloor> else \<lfloor>q\<rfloor>)"

fun to_time :: "(rat \<Rightarrow> jsstring) \<Rightarrow> (jsstring \<Rightarrow> int option) \<Rightarrow> json \<Rightarrow> int option" where
  "to_time num dp (JStr s) = dp s"
| "to_time num dp (JNum n) = (if \<bar>n\<bar> \<le> 8640000000000000 then Some (js_truncate n) else None)"
| "to_time num dp (JBool b) = Some (if b then 1 else 0)"
| "to_time num dp JNull = Some 0"
| "to_time num dp v = dp (js_to_string num v)"

text \<open>
  \<open>Math.round(diffMs / 60000)\<close>: the nearest integer, a tie going up. The quotient is taken
  exactly here; in double precision the result is the same for every difference of less than
  \<open>2 ^ 52\<close> milliseconds.
\<close>

definition round_minutes :: "int \<Rightarrow> int" where
  "round_minutes diffMs = (diffMs + 30000) div 60000"

definition detectTimeGap ::
  "(rat \<Rightarrow> jsstring) \<Rightarrow> (jsstring \<Rightarrow> int option) \<Rightarrow> json list \<Rightarrow> int \<Rightarrow> int \<Rightarrow>
     js_error + gap_info option" where
  "detectTimeGap num dp historySummaries now intervalMinutes =
     (if length historySummaries = 0 then Inr None
      else
        let lastSummary = last historySummaries in
        if lastSummary = JNull then Inl TypeError
        else (case js_get lastSummary ''timestamp'' of
                None \<Rightarrow> Inr None
              | Some ts \<Rightarrow>
                  if \<not> js_truthy ts then Inr None
                  else (case to_time num dp ts of
                          None \<Rightarrow> Inr None
                        | Some lastTime \<Rightarrow>
                            let diffMs = now - lastTime;
                                diffMinutes = round_minutes diffMs
                            in if diffMinutes > intervalMinutes * 2
                               then Inr (Some \<lparr>gapMinutes = diffMinutes, lastSummaryTime = lastTime\<rparr>)
                               else Inr None)))"

subsection \<open>Response parsing\<close>

definition str_fence :: jsstring where
  "str_fence = [0x0060, 0x0060, 0x0060]"

definition str_json :: jsstring where
  "str_json = [0x006A, 0x0073, 0x006F, 0x006E]"

text \<open>The text before and after the first occurrence of a pattern.\<close>

fun split_at_first :: "jsstring \<Rightarrow> jsstring \<Rightarrow> (jsstring \<times> jsstring) option" where
  "split_at_first pat [] = (if pat = [] then Some ([], []) else None)"
| "split_at_first pat (c # cs) =
     (if take (length pat) (c # cs) = pat then Some ([], drop (length pat) (c # cs))
      else (case split_at_first pat cs of
              None \<Rightarrow> None
            | Some (before, after) \<Rightarrow> Some (c # before, after)))"

text \<open>
  The first group of the regular expression \<open>```(?:json)?\s*([\s\S]*?)```\<close>: after the
  first fence an optional \<open>json\<close> and white space are skipped, and the group is the text up
  to the next fence.
\<close>

definition fence_match :: "jsstring \<Rightarrow> jsstring option" where
  "fence_match s =
     (case split_at_first str_fence s of
        None \<Rightarrow> None
      | Some (before, after) \<Rightarrow>
          let after_tag = (if take 4 after = str_json then drop 4 after else after);
              body = dropWhile js_is_space after_tag
          in (case split_at_first str_fence body of
                None \<Rightarrow> None
              | Some (captured, rest) \<Rightarrow> Some captured))"

definition parseResponse :: "(jsstring \<Rightarrow> json option) \<Rightarrow> jsstring \<Rightarrow> json" where
  "parseResponse jparse responseText =
     (let trimmed = js_trim responseText;
          jsonStr = (case fence_match trimmed of Some g \<Rightarrow> js_trim g | None \<Rightarrow> trimmed)
      in (case jparse jsonStr of
            Some v \<Rightarrow> v
          | None \<Rightarrow> JObj [(''raw_response'', JStr responseText)]))"

subsection \<open>Entry guard, catch and finally\<close>

definition set_executing :: "tier \<Rightarrow> bool \<Rightarrow> state \<Rightarrow> state" where
  "set_executing t b s = s\<lparr>executing := (executing s)(t := b)\<rparr>"

definition bump_count :: "tier \<Rightarrow> state \<Rightarrow> state" where
  "bump_count t s = s\<lparr>stats := (stats s)(t := (stats s t)\<lparr>count := count (stats s t) + 1\<rparr>)\<rparr>"

definition bump_errors :: "tier \<Rightarrow> state \<Rightarrow> state" where
  "bump_errors t s = s\<lparr>stats := (stats s)(t := (stats s t)\<lparr>errors := errors (stats s t) + 1\<rparr>)\<rparr>"

definition bump_skipped :: "tier \<Rightarrow> state \<Rightarrow> state" where
  "bump_skipped t s = s\<lparr>stats := (stats s)(t := (stats s t)\<lparr>skipped := skipped (stats s t) + 1\<rparr>)\<rparr>"

definition save :: "tier \<Rightarrow> int \<Rightarrow> json \<Rightarrow> state \<Rightarrow> state" where
  "save t now r s = s\<lparr>saved := saved s @ [(t, now, r)]\<rparr>"

text \<open>
  What follows a \<open>try\<close> block: the \<open>catch\<close> clause counts an error, the \<open>finally\<close> clause
  clears the flag. An invocation that reached the await is parked; its \<open>catch\<close> and
  \<open>finally\<close> run when the awaited call settles.
\<close>

fun leave_try :: "tier \<Rightarrow> state \<times> flow \<Rightarrow> state" where
  "leave_try t (s, Returned) = set_executing t False s"
| "leave_try t (s, Threw e) = set_executing t False (bump_errors t s)"
| "leave_try t (s, Awaiting now) = s\<lparr>suspended := suspended s @ [(t, now)]\<rparr>"

subsection \<open>The synchronous part of the three pipelines\<close>

definition historyCount :: "config \<Rightarrow> nat" where
  "historyCount cfg = (history_minutes cfg + 1) div 2"

definition run2min_try :: "config \<Rightarrow> tick_env \<Rightarrow> state \<Rightarrow> state \<times> flow" where
  "run2min_try cfg env s =
     (if \<not> base_enabled cfg then (s, Returned)
      else if fault env = Some AtReader then (s, Threw CollaboratorFailure)
      else
        let screenshots = screenshots_read env in
        if length screenshots = 0 then (s, Returned)
        else if has_comparer cfg \<and> allIdentical screenshots then
          (if has_collector cfg \<and> fault env = Some AtCollector then (s, Threw CollaboratorFailure)
           else
             let activeWindowTextForSkip = (if has_collector cfg then window_text env else []) in
             (case buildNoChange2minRecord screenshots activeWindowTextForSkip of
                Inl e \<Rightarrow> (s, Threw e)
              | Inr noChangeRecord \<Rightarrow>
                  if fault env = Some AtStoreSave then (s, Threw CollaboratorFailure)
                  else (bump_skipped T2min (save T2min (now_ms env) noChangeRecord s), Returned)))
        else if historyCount cfg > 0 \<and> fault env = Some AtStoreRead
          then (s, Threw CollaboratorFailure)
        else
          let historySummaries = (if historyCount cfg > 0 then history_read env else []) in
          (case detectTimeGap (number_to_string env) (date_parse env) historySummaries (now_gap_ms env) 2 of
             Inl e \<Rightarrow> (s, Threw e)
           | Inr gapInfo \<Rightarrow>
               if has_collector cfg \<and> fault env = Some AtCollector
                 then (s, Threw CollaboratorFailure)
               else
                 let activeWindowText = (if has_collector cfg then window_text env else []) in
                 if fault env = Some AtBuilder then (s, Threw CollaboratorFailure)
                 else
                   (s\<lparr>requests := requests s @
                        [(T2min, Build2min screenshots historySummaries gapInfo activeWindowText)]\<rparr>,
                    Awaiting (now_ms env))))"

definition run10min_try :: "config \<Rightarrow> tick_env \<Rightarrow> state \<Rightarrow> state \<times> flow" where
  "run10min_try cfg env s =
     (if fault env = Some AtStoreRead then (s, Threw CollaboratorFailure)
      else
        let recent2min = recent_read env in
        if length recent2min = 0 then (s, Returned)
        else
          (case (if has_comparer cfg then allNoChange recent2min else Inr False) of
             Inl e \<Rightarrow> (s, Threw e)
           | Inr True \<Rightarrow>
               (case buildNoChange10minRecord (number_to_string env) recent2min of
                  Inl e \<Rightarrow> (s, Threw e)
                | Inr noChangeRecord \<Rightarrow>
                    if fault env = Some AtStoreSave then (s, Threw CollaboratorFailure)
                    else (bump_skipped T10min (save T10min (now_ms env) noChangeRecord s), Returned))
           | Inr False \<Rightarrow>
               let history10min = history_read env in
               if has_collector cfg \<and> fault env = Some AtCollector
                 then (s, Threw CollaboratorFailure)
               else
                 let activeWindowText10 = (if has_collector cfg then window_text env else []) in
                 if fault env = Some AtBuilder then (s, Threw CollaboratorFailure)
                 else
                   (s\<lparr>requests := requests s @
                        [(T10min, Build10min recent2min history10min activeWindowText10)]\<rparr>,
                    Awaiting (now_ms env))))"

definition run1h_try :: "config \<Rightarrow> tick_env \<Rightarrow> state \<Rightarrow> state \<times> flow" where
  "run1h_try cfg env s =
     (if fault env = Some AtStoreRead then (s, Threw CollaboratorFailure)
      else
        let recent10min = recent_read env in
        if length recent10min = 0 then (s, Returned)
        else
          (case (if has_comparer cfg then allNoChange recent10min else Inr False) of
             Inl e \<Rightarrow> (s, Threw e)
           | Inr True \<Rightarrow>
               let noChangeRecord = buildNoChange1hRecord recent10min in
               if fault env = Some AtStoreSave then (s, Threw CollaboratorFailure)
               else (bump_skipped T1h (save T1h (now_ms env) noChangeRecord s), Returned)
           | Inr False \<Rightarrow>
               let earlier10min = history_read env in
               if has_collector cfg \<and> fault env = Some AtCollector
                 then (s, Threw CollaboratorFailure)
               else
                 let activeWindowText1h = (if has_collector cfg then window_text env else []) in
                 if fault env = Some AtBuilder then (s, Threw CollaboratorFailure)
                 else
                   (s\<lparr>requests := requests s @
                        [(T1h, Build1h recent10min earlier10min activeWindowText1h)]\<rparr>,
                    Awaiting (now_ms env))))"

definition run2min :: "config \<Rightarrow> tick_env \<Rightarrow> state \<Rightarrow> state" where
  "run2min cfg env s =
     (if executing s T2min \<or> \<not> isAllowed (schedule cfg) (clock_now env) then s
      else leave_try T2min (run2min_try cfg env (set_executing T2min True s)))"

definition run10min :: "config \<Rightarrow> tick_env \<Rightarrow> state \<Rightarrow> state" where
  "run10min cfg env s =
     (if executing s T10min \<or> \<not> isAllowed (schedule cfg) (clock_now env) then s
      else leave_try T10min (run10min_try cfg env (set_executing T10min True s)))"

definition run1h :: "config \<Rightarrow> tick_env \<Rightarrow> state \<Rightarrow> state" where
  "run1h cfg env s =
     (if executing s T1h \<or> \<not> isAllowed (schedule cfg) (clock_now env) then s
      else leave_try T1h (run1h_try cfg env (set_executing T1h True s)))"

text \<open>The callback of a tier's timer.\<close>

fun run_tier :: "config \<Rightarrow> tier \<Rightarrow> tick_env \<Rightarrow> state \<Rightarrow> state" where
  "run_tier cfg T2min env s = run2min cfg env s"
| "run_tier cfg T10min env s = run10min cfg env s"
| "run_tier cfg T1h env s = run1h cfg env s"

subsection \<open>The part of a pipeline after the await\<close>

text \<open>
  The three pipelines continue in the same way: the awaited \<open>generate\<close> throws or returns,
  the token usage is recorded, the text is parsed, the record is saved under the timestamp
  taken before the call, and the tier's \<open>count\<close> is incremented. The Todo write-back of the
  2-minute tier is wrapped in its own \<open>try\<close> and changes nothing modelled here.
\<close>

definition after_generate :: "config \<Rightarrow> tier \<Rightarrow> int \<Rightarrow> settle_env \<Rightarrow> state \<Rightarrow> state \<times> flow" where
  "after_generate cfg t now senv s =
     (case outcome (generate (client cfg) (api senv)) of
        Inl e \<Rightarrow> (s, Threw e)
      | Inr r \<Rightarrow>
          if has_token_tracker cfg \<and> usageMetadata r \<noteq> None \<and> settle_fault senv = Some AtTokenTracker
            then (s, Threw CollaboratorFailure)
          else
            let parsed = parseResponse (json_parse senv) (response_text r) in
            if settle_fault senv = Some AtStoreSave then (s, Threw CollaboratorFailure)
            else (bump_count t (save t now parsed s), Returned))"

definition resume :: "config \<Rightarrow> tier \<Rightarrow> int \<Rightarrow> settle_env \<Rightarrow> state \<Rightarrow> state" where
  "resume cfg t now senv s = leave_try t (after_generate cfg t now senv s)"

subsection \<open>Events of the event loop\<close>

text \<open>
  JavaScript runs each callback to its next await without interruption. The events that
  touch the scheduler are a call of \<open>start\<close>, a timer fire (only an armed timer fires), and
  the settling of the call a suspended invocation is waiting for.
\<close>

datatype event = Start | Tick tier tick_env | Settled tier settle_env

definition in_flight :: "state \<Rightarrow> tier \<Rightarrow> nat" where
  "in_flight s t = length (filter (\<lambda>p. fst p = t) (suspended s))"

fun step :: "config \<Rightarrow> event \<Rightarrow> state \<Rightarrow> state" where
  "step cfg Start s = start cfg s"
| "step cfg (Tick t env) s = (if timer s t then run_tier cfg t env s else s)"
| "step cfg (Settled t senv) s =
     (case filter (\<lambda>p. fst p = t) (suspended s) of
        [] \<Rightarrow> s
      | p # others \<Rightarrow> resume cfg t (snd p) senv (s\<lparr>suspended := remove1 p (suspended s)\<rparr>))"

fun run_events :: "config \<Rightarrow> event list \<Rightarrow> state \<Rightarrow> state" where
  "run_events cfg [] s = s"
| "run_events cfg (e # es) s = run_events cfg es (step cfg e s)"

subsection \<open>stop\<close>

definition clear_timers :: "state \<Rightarrow> state" where
  "clear_timers s = s\<lparr>timer := (\<lambda>t. False)\<rparr>"

definition any_executing :: "state \<Rightarrow> bool" where
  "any_executing s = (executing s T2min \<or> executing s T10min \<or> executing s T1h)"

text \<open>
  The loop \<open>while (executing...) await new Promise(r => setTimeout(r, 100))\<close>. The events
  that happen during each sleep are given as one list per sleep. The result is the state in
  which \<open>stop\<close> returns, or \<open>None\<close> if it is still polling when the given events are used up,
  together with the delays it asked the timer for.
\<close>

fun stop_wait :: "config \<Rightarrow> state \<Rightarrow> event list list \<Rightarrow> state option \<times> nat list" where
  "stop_wait cfg s [] =
     (if any_executing s then (None, [100]) else (Some (s\<lparr>isRunning := False\<rparr>), []))"
| "stop_wait cfg s (during # later) =
     (if any_executing s then
        (case stop_wait cfg (run_events cfg during s) later of
           (result, delays) \<Rightarrow> (result, 100 # delays))
      else (Some (s\<lparr>isRunning := False\<rparr>), []))"

definition stop :: "config \<Rightarrow> state \<Rightarrow> event list list \<Rightarrow> state option \<times> nat list" where
  "stop cfg s sleeps_events =
     (if \<not> isRunning s then (Some s, [])
      else stop_wait cfg (clear_timers s) sleeps_events)"

subsection \<open>Notions used to state the properties\<close>

text \<open>The \<open>try\<close> block of a tier's pipeline, up to its await.\<close>

fun tier_try :: "config \<Rightarrow> tier \<Rightarrow> tick_env \<Rightarrow> state \<Rightarrow> state \<times> flow" where
  "tier_try cfg T2min env s = run2min_try cfg env s"
| "tier_try cfg T10min env s = run10min_try cfg env s"
| "tier_try cfg T1h env s = run1h_try cfg env s"

text \<open>
  A state is coherent when each tier's flag is set exactly if one invocation of that tier
  is suspended at its await, and none has more than one.
\<close>

definition coherent :: "state \<Rightarrow> bool" where
  "coherent s \<longleftrightarrow> (\<forall>t. in_flight s t = (if executing s t then 1 else 0))"

definition is_tick :: "event \<Rightarrow> bool" where
  "is_tick e = (case e of Tick t env \<Rightarrow> True | _ \<Rightarrow> False)"

section \<open>Concrete inputs for the examples\<close>

definition demo_cfg :: config where
  "demo_cfg =
     \<lparr>schedule = \<lparr>schedule_enabled = True, days = [Mon, Tue, Wed, Thu, Fri],
                   start_time = (9, 0), end_time = (18, 0)\<rparr>,
      base_enabled = True, enabled_10min = True, enabled_1h = True,
      history_minutes = 10, has_comparer = True, has_collector = True,
      has_token_tracker = True, client = new_gemini_client 3 2\<rparr>"

definition str_iso_10_00 :: jsstring where
  "str_iso_10_00 =
     [0x0032, 0x0030, 0x0032, 0x0036, 0x002D, 0x0030, 0x0032, 0x002D, 0x0031, 0x0030, 0x0054,
      0x0031, 0x0030, 0x003A, 0x0030, 0x0030, 0x003A, 0x0030, 0x0030, 0x002E, 0x0030, 0x0030,
      0x0030, 0x005A]"

text \<open>The date parser on the one timestamp the examples use, 2026-02-10T10:00:00.000Z.\<close>

definition demo_date_parse :: "jsstring \<Rightarrow> int option" where
  "demo_date_parse str = (if str = str_iso_10_00 then Some 1770717600000 else None)"

text \<open>
  The number-to-string conversion on the natural numbers below \<open>10 ^ 21\<close>, which the
  host prints as their decimal digits; the examples convert no other number.
\<close>

fun nat_digits :: "nat \<Rightarrow> jsstring" where
  "nat_digits n =
     (if n < 10 then [of_nat (48 + n)]
      else nat_digits (n div 10) @ [of_nat (48 + n mod 10)])"

declare nat_digits.simps [simp del]

definition demo_number_to_string :: "rat \<Rightarrow> jsstring" where
  "demo_number_to_string q = nat_digits (nat \<lfloor>q\<rfloor>)"

definition demo_env :: tick_env where
  "demo_env =
     \<lparr>clock_now = \<lparr>day = Tue, hours = 10, minutes = 5\<rparr>,
      screenshots_read = [], recent_read = [], history_read = [],
      window_text = [], now_gap_ms = 1770717900000, now_ms = 1770717900000, date_parse = demo_date_parse,
      number_to_string = demo_number_to_string,
      fault = None\<rparr>"

definition shots_changed :: "screenshot list" where
  "shots_changed =
     [\<lparr>buffer = [1, 2], timestamp = 1770717780000\<rparr>, \<lparr>buffer = [1, 3], timestamp = 1770717840000\<rparr>]"

definition shots_same :: "screenshot list" where
  "shots_same =
     [\<lparr>buffer = [1, 2], timestamp = 1770717780000\<rparr>, \<lparr>buffer = [1, 2], timestamp = 1770717840000\<rparr>]"

definition child_active :: json where
  "child_active =
     JObj [(''category_type'', JArr [JStr str_behavior]),
           (''category_name'', JArr [JStr [0x0041]]),
           (''duration_minutes'', JNum 2),
           (''timestamp'', JStr str_iso_10_00)]"

definition child_idle :: json where
  "child_idle = JObj [(''no_change'', JBool True), (''context'', JStr [0x0041])]"

definition demo_text_json :: jsstring where
  "demo_text_json =
     [0x007B, 0x0022, 0x0061, 0x0063, 0x0074, 0x0069, 0x0076, 0x0069, 0x0074, 0x0079, 0x005F,
      0x0074, 0x0069, 0x006D, 0x0065, 0x006C, 0x0069, 0x006E, 0x0065, 0x0022, 0x003A, 0x005B,
      0x007B, 0x0022, 0x006C, 0x0061, 0x0062, 0x0065, 0x006C, 0x0022, 0x003A, 0x0022, 0x0058,
      0x0022, 0x002C, 0x0022, 0x006D, 0x0069, 0x006E, 0x0075, 0x0074, 0x0065, 0x0073, 0x0022,
      0x003A, 0x0031, 0x0030, 0x007D, 0x005D, 0x007D]"

definition demo_text_plain :: jsstring where
  "demo_text_plain = [0x006E, 0x002F, 0x0061]"

text \<open>
  \<open>JSON.parse\<close> on the two texts of the examples: the first is the JSON text of an object
  with one timeline entry labelled X of 10 minutes, the second (\<open>n/a\<close>) is not JSON.
\<close>

definition demo_json_parse :: "jsstring \<Rightarrow> json option" where
  "demo_json_parse str =
     (if str = demo_text_json
      then Some (JObj [(''activity_timeline'',
                        JArr [JObj [(''label'', JStr [0x0058]), (''minutes'', JNum 10)]])])
      else None)"

definition senv_replying :: "jsstring \<Rightarrow> settle_env" where
  "senv_replying reply =
     \<lparr>api = (\<lambda>k. ApiResponds (Some reply) None), json_parse = demo_json_parse,
      settle_fault = None\<rparr>"

definition senv_failing :: settle_env where
  "senv_failing =
     \<lparr>api = (\<lambda>k. ApiThrows (ApiFailure (nat k))), json_parse = demo_json_parse,
      settle_fault = None\<rparr>"

definition env_changed :: tick_env where
  "env_changed = demo_env\<lparr>screenshots_read := shots_changed\<rparr>"

definition env_same :: tick_env where
  "env_same = demo_env\<lparr>screenshots_read := shots_same\<rparr>"

definition env_children :: tick_env where
  "env_children = demo_env\<lparr>recent_read := [child_active]\<rparr>"

definition env_idle_children :: tick_env where
  "env_idle_children = demo_env\<lparr>recent_read := [child_idle, child_idle]\<rparr>"

text \<open>A running scheduler with one 2-minute invocation suspended at its await.\<close>

definition demo_busy :: state where
  "demo_busy = run_events demo_cfg [Start, Tick T2min env_changed] new_scheduler"

section \<open>Auxiliary facts\<close>

subsection \<open>The retry loop\<close>


lemma generate_loop_all_fail:
  assumes "\<forall>k. a \<le> k \<and> k \<le> maxRetries c \<longrightarrow> attempt_result (svc k) = Inl (e k)"
    and "a \<le> maxRetries c"
  shows "generate_loop c svc a lastError slept =
           \<lparr>outcome = Inl (e (maxRetries c)),
            sleeps = slept @ map (\<lambda>k. retryDelay c * k) [a..maxRetries c - 1],
            attempts = nat (maxRetries c)\<rparr>"
  using assms
proof (induction "nat (maxRetries c - a)" arbitrary: a lastError slept)
  case 0
  then have a: "a = maxRetries c" by simp
  have r: "attempt_result (svc a) = Inl (e a)" using "0.prems" by simp
  show ?case
    by (subst generate_loop.simps, simp add: r, subst generate_loop.simps, simp add: a)
next
  case (Suc m)
  then have lt: "a < maxRetries c" by simp
  have r: "attempt_result (svc a) = Inl (e a)" using Suc.prems by simp
  have ih: "generate_loop c svc (a + 1) (Some (e a)) (slept @ [retryDelay c * a]) =
           \<lparr>outcome = Inl (e (maxRetries c)),
            sleeps = (slept @ [retryDelay c * a]) @ map (\<lambda>k. retryDelay c * k) [a + 1..maxRetries c - 1],
            attempts = nat (maxRetries c)\<rparr>"
    using Suc.hyps(1) [of "a + 1"] Suc.hyps(2) Suc.prems lt by simp
  have up: "[a..maxRetries c - 1] = a # [a + 1..maxRetries c - 1]"
    using lt by (simp add: upto_rec1)
  have le: "a \<le> maxRetries c" using lt by simp
  show ?case
    by (subst generate_loop.simps) (simp add: r lt le ih up)
qed

lemma generate_loop_attempts_le:
  "1 \<le> a \<Longrightarrow> attempts (generate_loop c svc a lastError slept) \<le> nat (max (maxRetries c) (a - 1))"
proof (induction c svc a lastError slept rule: generate_loop.induct)
  case (1 c svc attempt lastError slept)
  show ?case
    using "1" by (subst generate_loop.simps) (auto split: sum.splits)
qed

lemma generate_loop_text_nonblank:
  "outcome (generate_loop c svc a lastError slept) = Inr r \<Longrightarrow>
     response_text r \<noteq> [] \<and> js_trim (response_text r) \<noteq> []"
proof (induction c svc a lastError slept rule: generate_loop.induct)
  case (1 c svc attempt lastError slept)
  show ?case
  proof (cases "attempt \<le> maxRetries c")
    case False
    with "1.prems" show ?thesis by (subst (asm) generate_loop.simps) simp
  next
    case True
    show ?thesis
    proof (cases "attempt_result (svc attempt)")
      case (Inl err)
      with True "1.prems" "1.IH" show ?thesis
        by (subst (asm) generate_loop.simps) simp
    next
      case (Inr r')
      with True "1.prems" have "r = r'" by (subst (asm) generate_loop.simps) simp
      with Inr show ?thesis
        by (cases "svc attempt" rule: attempt_result.cases) (auto split: if_splits)
    qed
  qed
qed

lemma attempt_result_blank_as_failure:
  "attempt_result (blank_as_failure out) = attempt_result out"
  by (cases "attempt_result out") (simp_all add: blank_as_failure_def)

lemma generate_loop_blank_as_failure:
  "generate_loop c (\<lambda>k. blank_as_failure (svc k)) a lastError slept =
   generate_loop c svc a lastError slept"
proof (induction c svc a lastError slept rule: generate_loop.induct)
  case (1 c svc attempt lastError slept)
  show ?case
    apply (subst generate_loop.simps)
    apply (subst (2) generate_loop.simps)
    using "1" by (auto simp: attempt_result_blank_as_failure split: sum.splits)
qed

subsection \<open>Frames of the pipeline steps\<close>


lemma run_tier_eq:
  "run_tier cfg t env s =
     (if executing s t \<or> \<not> isAllowed (schedule cfg) (clock_now env) then s
      else leave_try t (tier_try cfg t env (set_executing t True s)))"
  by (cases t) (simp_all add: run2min_def run10min_def run1h_def)

lemma run2min_try_frame:
  "run2min_try cfg env s = (s', f) \<Longrightarrow>
     executing s' = executing s \<and> timer s' = timer s \<and> isRunning s' = isRunning s \<and>
     suspended s' = suspended s"
  by (auto simp: run2min_try_def Let_def bump_skipped_def save_def
      split: if_splits sum.splits)

lemma run10min_try_frame:
  "run10min_try cfg env s = (s', f) \<Longrightarrow>
     executing s' = executing s \<and> timer s' = timer s \<and> isRunning s' = isRunning s \<and>
     suspended s' = suspended s"
  by (auto simp: run10min_try_def Let_def bump_skipped_def save_def
      split: if_splits sum.splits bool.splits)

lemma run1h_try_frame:
  "run1h_try cfg env s = (s', f) \<Longrightarrow>
     executing s' = executing s \<and> timer s' = timer s \<and> isRunning s' = isRunning s \<and>
     suspended s' = suspended s"
  by (auto simp: run1h_try_def Let_def bump_skipped_def save_def
      split: if_splits sum.splits bool.splits)

lemma tier_try_frame:
  "tier_try cfg t env s = (s', f) \<Longrightarrow>
     executing s' = executing s \<and> timer s' = timer s \<and> isRunning s' = isRunning s \<and>
     suspended s' = suspended s"
  by (cases t) (simp_all add: run2min_try_frame run10min_try_frame run1h_try_frame)

lemma after_generate_frame:
  "after_generate cfg t now senv s = (s', f) \<Longrightarrow>
     executing s' = executing s \<and> timer s' = timer s \<and> isRunning s' = isRunning s \<and>
     suspended s' = suspended s \<and> requests s' = requests s \<and> (\<forall>n. f \<noteq> Awaiting n)"
  by (auto simp: after_generate_def Let_def bump_count_def save_def
      split: if_splits sum.splits)


lemma set_executing_fields [simp]:
  "executing (set_executing t b s) = (executing s)(t := b)"
  "timer (set_executing t b s) = timer s"
  "isRunning (set_executing t b s) = isRunning s"
  "stats (set_executing t b s) = stats s"
  "saved (set_executing t b s) = saved s"
  "requests (set_executing t b s) = requests s"
  "suspended (set_executing t b s) = suspended s"
  by (simp_all add: set_executing_def)

lemma bump_errors_fields [simp]:
  "executing (bump_errors t s) = executing s"
  "timer (bump_errors t s) = timer s"
  "isRunning (bump_errors t s) = isRunning s"
  "stats (bump_errors t s) = (stats s)(t := (stats s t)\<lparr>errors := errors (stats s t) + 1\<rparr>)"
  "saved (bump_errors t s) = saved s"
  "requests (bump_errors t s) = requests s"
  "suspended (bump_errors t s) = suspended s"
  by (simp_all add: bump_errors_def)

lemma leave_try_fields:
  "timer (leave_try t (s, f)) = timer s"
  "isRunning (leave_try t (s, f)) = isRunning s"
  "requests (leave_try t (s, f)) = requests s"
  "saved (leave_try t (s, f)) = saved s"
  by (cases f; simp)+

lemma coherent_run_tier:
  assumes "coherent s"
  shows "coherent (run_tier cfg t env s)"
proof (cases "executing s t \<or> \<not> isAllowed (schedule cfg) (clock_now env)")
  case True
  then show ?thesis using assms by (simp add: run_tier_eq)
next
  case False
  obtain s' f where tr: "tier_try cfg t env (set_executing t True s) = (s', f)"
    by (cases "tier_try cfg t env (set_executing t True s)")
  from tier_try_frame [OF tr]
  have ex: "executing s' = (executing s)(t := True)" and su: "suspended s' = suspended s"
    by (simp_all add: set_executing_def)
  have run: "run_tier cfg t env s = leave_try t (s', f)"
    using False tr by (simp add: run_tier_eq)
  have nex: "\<not> executing s t" using False by simp
  show ?thesis
  proof (cases f)
    case Returned
    then show ?thesis
      using assms nex ex su
      by (auto simp: run coherent_def in_flight_def)
  next
    case (Threw e)
    then show ?thesis
      using assms nex ex su
      by (auto simp: run coherent_def in_flight_def)
  next
    case (Awaiting n)
    then show ?thesis
      using assms nex ex su
      by (auto simp: run coherent_def in_flight_def)
  qed
qed

lemma filter_remove1_first:
  "filter P xs = p # others \<Longrightarrow> filter P (remove1 p xs) = others"
proof (induction xs)
  case Nil
  then show ?case by simp
next
  case (Cons x xs)
  have "P p" using Cons.prems by (metis (mono_tags, lifting) filter_eq_ConsD)
  with Cons show ?case by (cases "P x") auto
qed

lemma filter_remove1_other:
  "\<not> Q p \<Longrightarrow> filter Q (remove1 p xs) = filter Q xs"
  by (induction xs) auto

lemma coherent_resume_step:
  assumes "coherent s" and fl: "filter (\<lambda>p. fst p = t) (suspended s) = p # others"
  shows "coherent (resume cfg t (snd p) senv (s\<lparr>suspended := remove1 p (suspended s)\<rparr>))"
proof -
  let ?s1 = "s\<lparr>suspended := remove1 p (suspended s)\<rparr>"
  have pt: "fst p = t"
    using fl by (metis (mono_tags, lifting) filter_eq_ConsD)
  have one: "in_flight s t = 1" "executing s t" "others = []"
    using assms unfolding coherent_def in_flight_def
    by (metis length_Cons nat.simps(3) list.size(3) One_nat_def, 
        metis length_Cons nat.simps(3) list.size(3),
        metis length_Cons length_0_conv One_nat_def Suc_inject nat.simps(3) list.size(3))
  obtain s' f where ag: "after_generate cfg t (snd p) senv ?s1 = (s', f)"
    by (cases "after_generate cfg t (snd p) senv ?s1")
  from after_generate_frame [OF ag]
  have ex: "executing s' = executing s" and su: "suspended s' = remove1 p (suspended s)"
    and na: "\<forall>n. f \<noteq> Awaiting n"
    by simp_all
  have f0: "filter (\<lambda>q. fst q = t) (remove1 p (suspended s)) = []"
    using filter_remove1_first [OF fl] one by simp
  have fo: "\<And>u. u \<noteq> t \<Longrightarrow>
      filter (\<lambda>q. fst q = u) (remove1 p (suspended s)) = filter (\<lambda>q. fst q = u) (suspended s)"
    using pt by (intro filter_remove1_other) auto
  have "coherent (leave_try t (s', f))"
    unfolding coherent_def
  proof
    fix u
    show "in_flight (leave_try t (s', f)) u = (if executing (leave_try t (s', f)) u then 1 else 0)"
    proof (cases "u = t")
      case True
      then show ?thesis
        using na f0 su ex by (cases f) (simp_all add: in_flight_def)
    next
      case False
      then show ?thesis
        using na fo [OF False] su ex assms(1)
        by (cases f) (simp_all add: in_flight_def coherent_def)
    qed
  qed
  then show ?thesis by (simp add: resume_def ag)
qed

lemma coherent_step: "coherent s \<Longrightarrow> coherent (step cfg e s)"
proof (cases e)
  case Start
  assume "coherent s"
  then show ?thesis using Start by (simp add: start_def coherent_def in_flight_def)
next
  case (Tick t env)
  assume "coherent s"
  then show ?thesis using Tick by (simp add: coherent_run_tier)
next
  case (Settled t senv)
  assume c: "coherent s"
  show ?thesis
  proof (cases "filter (\<lambda>p. fst p = t) (suspended s)")
    case Nil
    then show ?thesis using c Settled by simp
  next
    case (Cons p others)
    then show ?thesis using c Settled coherent_resume_step [OF c Cons] by simp
  qed
qed

lemma coherent_run_events: "coherent s \<Longrightarrow> coherent (run_events cfg es s)"
  by (induction es arbitrary: s) (simp_all add: coherent_step)

lemma coherent_new_scheduler: "coherent new_scheduler"
  by (simp add: coherent_def new_scheduler_def in_flight_def)

section \<open>Properties of the comparer\<close>

lemma compare_with_base_iff:
  "compare_with_base b xs \<longleftrightarrow> (\<forall>x \<in> set xs. buffer x = b)"
  by (induction xs) auto

text \<open>
  C7. \<open>allIdentical\<close> is false on every list of length 0 or 1; on a list of two or more
  screenshots it is true exactly when every screenshot's buffer equals, byte for byte, the
  buffer of the first one, so a single differing item makes it false.
\<close>

theorem allIdentical_spec:
  "(length screenshots \<le> 1 \<longrightarrow> \<not> allIdentical screenshots) \<and>
   (2 \<le> length screenshots \<longrightarrow>
      (allIdentical screenshots \<longleftrightarrow>
         (\<forall>i < length screenshots. buffer (screenshots ! i) = buffer (screenshots ! 0))))"
proof (cases screenshots)
  case Nil
  then show ?thesis by simp
next
  case (Cons s0 rest)
  show ?thesis
  proof (cases rest)
    case Nil
    with Cons show ?thesis by simp
  next
    case (Cons s1 more)
    have "allIdentical screenshots \<longleftrightarrow> (\<forall>x \<in> set screenshots. buffer x = buffer s0)"
      using \<open>screenshots = s0 # rest\<close> Cons by (simp add: compare_with_base_iff)
    also have "\<dots> \<longleftrightarrow> (\<forall>i < length screenshots. buffer (screenshots ! i) = buffer s0)"
      by (simp add: all_set_conv_all_nth)
    finally show ?thesis
      using \<open>screenshots = s0 # rest\<close> Cons by simp
  qed
qed

theorem allIdentical_spec_witness:
  "\<not> allIdentical [\<lparr>buffer = [1, 2], timestamp = 0\<rparr>] \<and>
   allIdentical [\<lparr>buffer = [1, 2], timestamp = 0\<rparr>, \<lparr>buffer = [1, 2], timestamp = 5000\<rparr>] \<and>
   \<not> allIdentical [\<lparr>buffer = [1, 2], timestamp = 0\<rparr>, \<lparr>buffer = [1, 2], timestamp = 5000\<rparr>,
                    \<lparr>buffer = [1, 3], timestamp = 10000\<rparr>]"
  using allIdentical_spec [of "[\<lparr>buffer = [1, 2], timestamp = 0\<rparr>]"]
    allIdentical_spec [of "[\<lparr>buffer = [1, 2], timestamp = 0\<rparr>, \<lparr>buffer = [1, 2], timestamp = 5000\<rparr>]"]
    allIdentical_spec [of "[\<lparr>buffer = [1, 2], timestamp = 0\<rparr>, \<lparr>buffer = [1, 2], timestamp = 5000\<rparr>,
                    \<lparr>buffer = [1, 3], timestamp = 10000\<rparr>]"]
  by simp

text \<open>
  C9. For every non-empty screenshot list and every focus-window text,
  \<open>buildNoChange2minRecord\<close> returns a record whose \<open>no_change\<close> is \<open>true\<close>, whose single
  placeholder claim is category type "behaviour" with name "screen unchanged", and whose
  \<open>duration_minutes\<close> is the constant 2: the function takes no history, so the reported
  duration is the same however long the screen has stayed unchanged.
\<close>

theorem buildNoChange2minRecord_fixed_duration:
  "screenshots \<noteq> [] \<Longrightarrow>
   (\<exists>r. buildNoChange2minRecord screenshots activeWindowText = Inr r \<and>
        js_get r ''no_change'' = Some (JBool True) \<and>
        js_get r ''category_type'' = Some (JArr [JStr str_behavior]) \<and>
        js_get r ''category_name'' = Some (JArr [JStr str_screen_unchanged]) \<and>
        js_get r ''duration_minutes'' = Some (JNum 2))"
  by (simp add: buildNoChange2minRecord_def)

theorem buildNoChange2minRecord_fixed_duration_witness:
  "[\<lparr>buffer = [7], timestamp = 0\<rparr>, \<lparr>buffer = [7], timestamp = 5000\<rparr>] \<noteq> [] \<and>
   (\<exists>r. buildNoChange2minRecord
          [\<lparr>buffer = [7], timestamp = 0\<rparr>, \<lparr>buffer = [7], timestamp = 5000\<rparr>] [] = Inr r \<and>
        js_get r ''duration_minutes'' = Some (JNum 2))"
  using buildNoChange2minRecord_fixed_duration
    [of "[\<lparr>buffer = [7], timestamp = 0\<rparr>, \<lparr>buffer = [7], timestamp = 5000\<rparr>]" "[]"]
  by auto

section \<open>Properties of gap detection\<close>

text \<open>
  C5. \<open>_detectTimeGap\<close> returns a gap record exactly when the rounded difference in minutes
  between now and the timestamp of the last history record exceeds twice the expected
  interval, and \<open>null\<close> otherwise: \<open>null\<close> for an empty history, for a last record whose
  timestamp is missing, falsy or not parseable as a date; and with an expected interval of 2
  a difference of exactly 4 minutes gives \<open>null\<close> while 5 minutes gives a gap of 5.
\<close>

theorem detectTimeGap_spec:
  "detectTimeGap num dp [] now iv = Inr None \<and>
   (lastSummary \<noteq> JNull \<and>
    (js_get lastSummary ''timestamp'' = None \<or>
     (\<exists>v. js_get lastSummary ''timestamp'' = Some v \<and> (\<not> js_truthy v \<or> to_time num dp v = None)))
      \<longrightarrow> detectTimeGap num dp (earlier @ [lastSummary]) now iv = Inr None) \<and>
   (js_get lastSummary ''timestamp'' = Some ts \<and> js_truthy ts \<and> to_time num dp ts = Some lastTime
      \<longrightarrow> detectTimeGap num dp (earlier @ [lastSummary]) now iv =
            Inr (if round_minutes (now - lastTime) > 2 * iv
                 then Some \<lparr>gapMinutes = round_minutes (now - lastTime),
                            lastSummaryTime = lastTime\<rparr>
                 else None) \<and>
          detectTimeGap num dp (earlier @ [lastSummary]) (lastTime + 4 * 60000) 2 = Inr None \<and>
          detectTimeGap num dp (earlier @ [lastSummary]) (lastTime + 5 * 60000) 2 =
            Inr (Some \<lparr>gapMinutes = 5, lastSummaryTime = lastTime\<rparr>))"
proof (intro conjI impI)
  show "detectTimeGap num dp [] now iv = Inr None"
    by (simp add: detectTimeGap_def)
next
  assume "lastSummary \<noteq> JNull \<and>
    (js_get lastSummary ''timestamp'' = None \<or>
     (\<exists>v. js_get lastSummary ''timestamp'' = Some v \<and> (\<not> js_truthy v \<or> to_time num dp v = None)))"
  then show "detectTimeGap num dp (earlier @ [lastSummary]) now iv = Inr None"
    by (auto simp: detectTimeGap_def)
next
  assume a: "js_get lastSummary ''timestamp'' = Some ts \<and> js_truthy ts \<and>
    to_time num dp ts = Some lastTime"
  then have nn: "lastSummary \<noteq> JNull" by auto
  show "detectTimeGap num dp (earlier @ [lastSummary]) now iv =
            Inr (if round_minutes (now - lastTime) > 2 * iv
                 then Some \<lparr>gapMinutes = round_minutes (now - lastTime),
                            lastSummaryTime = lastTime\<rparr>
                 else None)"
    using a nn by (simp add: detectTimeGap_def Let_def mult.commute)
  show "detectTimeGap num dp (earlier @ [lastSummary]) (lastTime + 4 * 60000) 2 = Inr None"
    using a nn by (simp add: detectTimeGap_def Let_def round_minutes_def)
  show "detectTimeGap num dp (earlier @ [lastSummary]) (lastTime + 5 * 60000) 2 =
            Inr (Some \<lparr>gapMinutes = 5, lastSummaryTime = lastTime\<rparr>)"
    using a nn by (simp add: detectTimeGap_def Let_def round_minutes_def)
qed

theorem detectTimeGap_spec_witness:
  "js_get child_active ''timestamp'' = Some (JStr str_iso_10_00) \<and>
   js_truthy (JStr str_iso_10_00) \<and>
   to_time demo_number_to_string demo_date_parse (JStr str_iso_10_00) = Some 1770717600000 \<and>
   detectTimeGap demo_number_to_string demo_date_parse [child_idle, child_active] 1770717870000 2 =
     Inr (Some \<lparr>gapMinutes = 5, lastSummaryTime = 1770717600000\<rparr>) \<and>
   detectTimeGap demo_number_to_string demo_date_parse [child_idle, child_active] 1770717840000 2 = Inr None \<and>
   detectTimeGap demo_number_to_string demo_date_parse [child_active, child_idle] 1770717870000 2 = Inr None"
proof -
  have h: "js_get child_active ''timestamp'' = Some (JStr str_iso_10_00) \<and>
      js_truthy (JStr str_iso_10_00) \<and>
      to_time demo_number_to_string demo_date_parse (JStr str_iso_10_00) = Some 1770717600000"
    by (simp add: child_active_def demo_date_parse_def str_iso_10_00_def)
  have n: "child_idle \<noteq> JNull \<and> js_get child_idle ''timestamp'' = None"
    by (simp add: child_idle_def)
  have r: "round_minutes (1770717870000 - 1770717600000) = 5"
    by (simp add: round_minutes_def)
  show ?thesis
    using h n r
      detectTimeGap_spec [of demo_number_to_string demo_date_parse 1770717870000 2 child_active "[child_idle]"
        "JStr str_iso_10_00" 1770717600000]
      detectTimeGap_spec [of demo_number_to_string demo_date_parse 1770717870000 2 child_idle "[child_active]"]
    by simp
qed

section \<open>Retries of the external analysis call\<close>

text \<open>
  C6. When every attempt fails, \<open>generate\<close> makes exactly the configured number of
  attempts, sleeps the base delay times the attempt number after each attempt but the
  last (delays that increase when the base delay is positive), and throws the error of the
  last attempt; it never makes more attempts than configured. The pipeline that awaited the
  call then counts one error for its tier, clears its flag and saves nothing, and nothing
  was saved before the call either.
\<close>

theorem generate_exhausted_counts_error:
  assumes "1 \<le> maxRetries (client cfg)"
    and "\<forall>k. 1 \<le> k \<and> k \<le> maxRetries (client cfg) \<longrightarrow> attempt_result (api senv k) = Inl (e k)"
  shows "outcome (generate (client cfg) (api senv)) = Inl (e (maxRetries (client cfg))) \<and>
         attempts (generate (client cfg) (api senv)) = nat (maxRetries (client cfg)) \<and>
         sleeps (generate (client cfg) (api senv)) =
           map (\<lambda>k. retryDelay (client cfg) * k) [1..maxRetries (client cfg) - 1] \<and>
         (0 < retryDelay (client cfg) \<longrightarrow>
            sorted_wrt (<) (sleeps (generate (client cfg) (api senv)))) \<and>
         attempts (generate (client cfg) svc) \<le> nat (maxRetries (client cfg)) \<and>
         resume cfg t now senv s = set_executing t False (bump_errors t s) \<and>
         saved (resume cfg t now senv s) = saved s \<and>
         stats (resume cfg t now senv s) =
           (stats s)(t := (stats s t)\<lparr>errors := errors (stats s t) + 1\<rparr>) \<and>
         \<not> executing (resume cfg t now senv s) t \<and>
         (tier_try cfg t env s0 = (s1, Awaiting now) \<longrightarrow> saved s1 = saved s0)"
proof -
  let ?c = "client cfg"
  have g: "generate ?c (api senv) =
      \<lparr>outcome = Inl (e (maxRetries ?c)),
       sleeps = map (\<lambda>k. retryDelay ?c * k) [1..maxRetries ?c - 1],
       attempts = nat (maxRetries ?c)\<rparr>"
    unfolding generate_def
    using generate_loop_all_fail [of 1 ?c "api senv" e None "[]"] assms by simp
  have inc: "0 < retryDelay ?c \<Longrightarrow>
      sorted_wrt (<) (map (\<lambda>k. retryDelay ?c * k) [1..maxRetries ?c - 1])"
    by (simp add: sorted_wrt_map sorted_wrt_upto)
  have le: "attempts (generate ?c svc) \<le> nat (maxRetries ?c)"
    unfolding generate_def
    using generate_loop_attempts_le [of 1 ?c svc None "[]"] assms(1) by simp
  have r: "resume cfg t now senv s = set_executing t False (bump_errors t s)"
    by (simp add: resume_def after_generate_def g)
  have sv: "tier_try cfg t env s0 = (s1, Awaiting now) \<Longrightarrow> saved s1 = saved s0"
    by (cases t)
      (auto simp: run2min_try_def run10min_try_def run1h_try_def Let_def
        split: if_splits sum.splits bool.splits)
  show ?thesis
    using inc le sv by (simp add: g r)
qed

theorem generate_exhausted_counts_error_witness:
  "1 \<le> maxRetries (client demo_cfg) \<and>
   outcome (generate (client demo_cfg) (api senv_failing)) = Inl (ApiFailure 3) \<and>
   attempts (generate (client demo_cfg) (api senv_failing)) = 3 \<and>
   sleeps (generate (client demo_cfg) (api senv_failing)) = [2000, 4000] \<and>
   saved (resume demo_cfg T10min 1770717900000 senv_failing new_scheduler) = [] \<and>
   errors (stats (resume demo_cfg T10min 1770717900000 senv_failing new_scheduler) T10min) = 1"
proof -
  have m: "maxRetries (client demo_cfg) = 3" "retryDelay (client demo_cfg) = 2000"
    by (simp_all add: demo_cfg_def new_gemini_client_def)
  have f: "\<forall>k. 1 \<le> k \<and> k \<le> maxRetries (client demo_cfg) \<longrightarrow>
      attempt_result (api senv_failing k) = Inl (ApiFailure (nat k))"
    by (simp add: senv_failing_def)
  have u: "[1..(2::int)] = [1, 2]"
    by (simp add: upto_rec1)
  show ?thesis
    using generate_exhausted_counts_error
      [of demo_cfg senv_failing "\<lambda>k. ApiFailure (nat k)" "api senv_failing" T10min
        1770717900000 new_scheduler demo_env new_scheduler new_scheduler] f
    by (simp add: m u new_scheduler_def)
qed

text \<open>
  C10. Whenever \<open>generate\<close> returns, the text it returns is neither empty nor made of white
  space only. A response whose text is missing, empty or blank counts as a failed attempt:
  the run of \<open>generate\<close> is the same as if the API had thrown at that attempt.
\<close>

theorem generate_text_never_blank:
  "(outcome (generate c svc) = Inr r \<longrightarrow>
      response_text r \<noteq> [] \<and> js_trim (response_text r) \<noteq> []) \<and>
   generate c (\<lambda>k. blank_as_failure (svc k)) = generate c svc \<and>
   blank_as_failure (ApiResponds None usage) = ApiThrows EmptyResponse \<and>
   (txt = [] \<or> js_trim txt = [] \<longrightarrow>
      blank_as_failure (ApiResponds (Some txt) usage) = ApiThrows EmptyResponse)"
  using generate_loop_text_nonblank [of c svc 1 None "[]" r]
    generate_loop_blank_as_failure [of c svc 1 None "[]"]
  by (auto simp: generate_def blank_as_failure_def)

theorem generate_text_never_blank_witness:
  "outcome (generate (new_gemini_client 3 2)
      (\<lambda>k. if k = 1 then ApiResponds (Some [0x0020, 0x000A]) None
            else ApiResponds (Some demo_text_plain) (Some 7))) =
     Inr \<lparr>response_text = demo_text_plain, usageMetadata = Some 7\<rparr> \<and>
   response_text \<lparr>response_text = demo_text_plain, usageMetadata = Some 7\<rparr> \<noteq> [] \<and>
   js_trim [0x0020, 0x000A] = [] \<and>
   blank_as_failure (ApiResponds (Some [0x0020, 0x000A]) None) = ApiThrows EmptyResponse"
proof -
  have t: "js_trim [0x0020, 0x000A] = []"
    by (simp add: js_trim_def js_is_space_def)
  have o: "outcome (generate (new_gemini_client 3 2)
      (\<lambda>k. if k = 1 then ApiResponds (Some [0x0020, 0x000A]) None
            else ApiResponds (Some demo_text_plain) (Some 7))) =
     Inr \<lparr>response_text = demo_text_plain, usageMetadata = Some 7\<rparr>"
    by code_simp
  show ?thesis
    using t o
      generate_text_never_blank [of "new_gemini_client 3 2"
        "\<lambda>k. if k = 1 then ApiResponds (Some [0x0020, 0x000A]) None
              else ApiResponds (Some demo_text_plain) (Some 7)"
        "\<lparr>response_text = demo_text_plain, usageMetadata = Some 7\<rparr>" None
        "[0x0020, 0x000A]"]
    by simp
qed

section \<open>The no-change fast path\<close>

lemma unset_after_set:
  "\<not> executing s t \<Longrightarrow> (executing s)(t := False) = executing s"
  by (simp add: fun_upd_idem_iff)

lemma every_no_change_not_null:
  "every_no_change xs = Inr True \<Longrightarrow> JNull \<notin> set xs"
  by (induction xs) (auto split: if_splits)

lemma map_context_total:
  "JNull \<notin> set xs \<Longrightarrow> \<exists>cs. map_context xs = Inr cs"
  by (induction xs) auto

lemma buildNoChange10minRecord_total:
  assumes "allNoChange xs = Inr True"
  shows "\<exists>r. buildNoChange10minRecord num xs = Inr r \<and> js_get r ''no_change'' = Some (JBool True) \<and>
              js_get r ''activity_timeline'' = Some (JArr [])"
proof -
  have "every_no_change xs = Inr True"
    using assms by (simp add: allNoChange_def split: if_splits)
  then obtain cs where "map_context xs = Inr cs"
    using every_no_change_not_null map_context_total by blast
  then show ?thesis
    by (simp add: buildNoChange10minRecord_def Let_def)
qed

lemma buildNoChange2minRecord_some:
  "screenshots \<noteq> [] \<Longrightarrow>
   \<exists>r. buildNoChange2minRecord screenshots activeWindowText = Inr r \<and>
       js_get r ''no_change'' = Some (JBool True)"
  by (simp add: buildNoChange2minRecord_def)

text \<open>
  C2, as stated, fails: \<open>summaryStore.save\<close> rethrows a failed write, inside the \<open>try\<close>
  block. When the detector reports no change and the save throws, nothing is saved, the
  \<open>skipped\<close> counter stays and the \<open>errors\<close> counter is incremented, at the 2-minute tier
  as at the 10-minute tier.
\<close>

theorem no_change_save_throws_counterexample:
  "has_comparer demo_cfg \<and>
   allIdentical (screenshots_read (env_same\<lparr>fault := Some AtStoreSave\<rparr>)) \<and>
   saved (run2min demo_cfg (env_same\<lparr>fault := Some AtStoreSave\<rparr>)
            (start demo_cfg new_scheduler)) = [] \<and>
   stats (run2min demo_cfg (env_same\<lparr>fault := Some AtStoreSave\<rparr>)
            (start demo_cfg new_scheduler)) T2min =
     \<lparr>count = 0, errors = 1, skipped = 0\<rparr> \<and>
   allNoChange (recent_read (env_idle_children\<lparr>fault := Some AtStoreSave\<rparr>)) = Inr True \<and>
   saved (run10min demo_cfg (env_idle_children\<lparr>fault := Some AtStoreSave\<rparr>)
            (start demo_cfg new_scheduler)) = [] \<and>
   stats (run10min demo_cfg (env_idle_children\<lparr>fault := Some AtStoreSave\<rparr>)
            (start demo_cfg new_scheduler)) T10min =
     \<lparr>count = 0, errors = 1, skipped = 0\<rparr>"
  by code_simp

text \<open>
  C2, amended. In each tier, when the pipeline reaches the change detector (the flag was
  clear, the time gate open, input present) and the detector reports no change, no request
  is sent to the external analysis, nothing is left suspended and the flag is clear on
  return. If the collaborator calls of this path return normally (the focus-window collector
  at the 2-minute tier, \<open>summaryStore.save\<close> at every tier), the state after the invocation
  is the state before it with the no-change record appended to the saved records and the
  tier's \<open>skipped\<close> counter incremented. If one of them throws, the state after the
  invocation is the state before it with the tier's \<open>errors\<close> counter incremented: nothing
  is saved and \<open>skipped\<close> is unchanged.
\<close>

theorem no_change_skips_analysis:
  "(\<not> executing s T2min \<and> isAllowed (schedule cfg) (clock_now env) \<and> base_enabled cfg \<and>
    fault env \<noteq> Some AtReader \<and> has_comparer cfg \<and> allIdentical (screenshots_read env)
    \<longrightarrow> requests (run2min cfg env s) = requests s \<and>
        suspended (run2min cfg env s) = suspended s \<and>
        \<not> executing (run2min cfg env s) T2min \<and>
        (\<not> (has_collector cfg \<and> fault env = Some AtCollector) \<and> fault env \<noteq> Some AtStoreSave \<longrightarrow>
          (\<exists>r. buildNoChange2minRecord (screenshots_read env)
                  (if has_collector cfg then window_text env else []) = Inr r \<and>
               js_get r ''no_change'' = Some (JBool True) \<and>
               run2min cfg env s =
                 s\<lparr>saved := saved s @ [(T2min, now_ms env, r)],
                   stats := (stats s)(T2min :=
                     (stats s T2min)\<lparr>skipped := skipped (stats s T2min) + 1\<rparr>)\<rparr>)) \<and>
        ((has_collector cfg \<and> fault env = Some AtCollector) \<or> fault env = Some AtStoreSave \<longrightarrow>
          run2min cfg env s =
            s\<lparr>stats := (stats s)(T2min :=
                (stats s T2min)\<lparr>errors := errors (stats s T2min) + 1\<rparr>)\<rparr>)) \<and>
   (\<not> executing s T10min \<and> isAllowed (schedule cfg) (clock_now env) \<and>
    fault env \<noteq> Some AtStoreRead \<and> has_comparer cfg \<and> allNoChange (recent_read env) = Inr True
    \<longrightarrow> requests (run10min cfg env s) = requests s \<and>
        suspended (run10min cfg env s) = suspended s \<and>
        \<not> executing (run10min cfg env s) T10min \<and>
        (fault env \<noteq> Some AtStoreSave \<longrightarrow>
          (\<exists>r. buildNoChange10minRecord (number_to_string env) (recent_read env) = Inr r \<and>
               js_get r ''no_change'' = Some (JBool True) \<and>
               run10min cfg env s =
                 s\<lparr>saved := saved s @ [(T10min, now_ms env, r)],
                   stats := (stats s)(T10min :=
                     (stats s T10min)\<lparr>skipped := skipped (stats s T10min) + 1\<rparr>)\<rparr>)) \<and>
        (fault env = Some AtStoreSave \<longrightarrow>
          run10min cfg env s =
            s\<lparr>stats := (stats s)(T10min :=
                (stats s T10min)\<lparr>errors := errors (stats s T10min) + 1\<rparr>)\<rparr>)) \<and>
   (\<not> executing s T1h \<and> isAllowed (schedule cfg) (clock_now env) \<and>
    fault env \<noteq> Some AtStoreRead \<and> has_comparer cfg \<and> allNoChange (recent_read env) = Inr True
    \<longrightarrow> requests (run1h cfg env s) = requests s \<and>
        suspended (run1h cfg env s) = suspended s \<and>
        \<not> executing (run1h cfg env s) T1h \<and>
        js_get (buildNoChange1hRecord (recent_read env)) ''no_change'' = Some (JBool True) \<and>
        (fault env \<noteq> Some AtStoreSave \<longrightarrow>
          run1h cfg env s =
            s\<lparr>saved := saved s @ [(T1h, now_ms env, buildNoChange1hRecord (recent_read env))],
              stats := (stats s)(T1h :=
                (stats s T1h)\<lparr>skipped := skipped (stats s T1h) + 1\<rparr>)\<rparr>) \<and>
        (fault env = Some AtStoreSave \<longrightarrow>
          run1h cfg env s =
            s\<lparr>stats := (stats s)(T1h :=
                (stats s T1h)\<lparr>errors := errors (stats s T1h) + 1\<rparr>)\<rparr>))"
proof (intro conjI impI)
  assume a: "\<not> executing s T2min \<and> isAllowed (schedule cfg) (clock_now env) \<and> base_enabled cfg \<and>
    fault env \<noteq> Some AtReader \<and> has_comparer cfg \<and> allIdentical (screenshots_read env)"
  then have ne: "screenshots_read env \<noteq> []" by auto
  obtain r where r: "buildNoChange2minRecord (screenshots_read env)
      (if has_collector cfg then window_text env else []) = Inr r"
    "js_get r ''no_change'' = Some (JBool True)"
    using buildNoChange2minRecord_some [OF ne] by blast
  note defs = run2min_def run2min_try_def Let_def bump_skipped_def save_def
  show "requests (run2min cfg env s) = requests s"
    using a ne r by (simp add: defs)
  show "suspended (run2min cfg env s) = suspended s"
    using a ne r by (simp add: defs)
  show "\<not> executing (run2min cfg env s) T2min"
    using a ne r by (simp add: defs)
  {
    assume "\<not> (has_collector cfg \<and> fault env = Some AtCollector) \<and> fault env \<noteq> Some AtStoreSave"
    then show "\<exists>r. buildNoChange2minRecord (screenshots_read env)
                  (if has_collector cfg then window_text env else []) = Inr r \<and>
               js_get r ''no_change'' = Some (JBool True) \<and>
               run2min cfg env s =
                 s\<lparr>saved := saved s @ [(T2min, now_ms env, r)],
                   stats := (stats s)(T2min :=
                     (stats s T2min)\<lparr>skipped := skipped (stats s T2min) + 1\<rparr>)\<rparr>"
      using a ne r by (auto simp: defs set_executing_def unset_after_set)
  }
  {
    assume "(has_collector cfg \<and> fault env = Some AtCollector) \<or> fault env = Some AtStoreSave"
    then show "run2min cfg env s =
            s\<lparr>stats := (stats s)(T2min :=
                (stats s T2min)\<lparr>errors := errors (stats s T2min) + 1\<rparr>)\<rparr>"
      using a ne r by (auto simp: defs set_executing_def bump_errors_def unset_after_set)
  }
next
  assume a: "\<not> executing s T10min \<and> isAllowed (schedule cfg) (clock_now env) \<and>
    fault env \<noteq> Some AtStoreRead \<and> has_comparer cfg \<and> allNoChange (recent_read env) = Inr True"
  then have ne: "recent_read env \<noteq> []" by (auto simp: allNoChange_def)
  obtain r where r: "buildNoChange10minRecord (number_to_string env) (recent_read env) = Inr r"
    "js_get r ''no_change'' = Some (JBool True)"
    using buildNoChange10minRecord_total a by blast
  note defs = run10min_def run10min_try_def Let_def bump_skipped_def save_def
  show "requests (run10min cfg env s) = requests s"
    using a ne r by (simp add: defs)
  show "suspended (run10min cfg env s) = suspended s"
    using a ne r by (simp add: defs)
  show "\<not> executing (run10min cfg env s) T10min"
    using a ne r by (simp add: defs)
  {
    assume "fault env \<noteq> Some AtStoreSave"
    then show "\<exists>r. buildNoChange10minRecord (number_to_string env) (recent_read env) = Inr r \<and>
               js_get r ''no_change'' = Some (JBool True) \<and>
               run10min cfg env s =
                 s\<lparr>saved := saved s @ [(T10min, now_ms env, r)],
                   stats := (stats s)(T10min :=
                     (stats s T10min)\<lparr>skipped := skipped (stats s T10min) + 1\<rparr>)\<rparr>"
      using a ne r by (simp add: defs set_executing_def unset_after_set)
  }
  {
    assume "fault env = Some AtStoreSave"
    then show "run10min cfg env s =
            s\<lparr>stats := (stats s)(T10min :=
                (stats s T10min)\<lparr>errors := errors (stats s T10min) + 1\<rparr>)\<rparr>"
      using a ne r by (simp add: defs set_executing_def bump_errors_def unset_after_set)
  }
next
  assume a: "\<not> executing s T1h \<and> isAllowed (schedule cfg) (clock_now env) \<and>
    fault env \<noteq> Some AtStoreRead \<and> has_comparer cfg \<and> allNoChange (recent_read env) = Inr True"
  then have ne: "recent_read env \<noteq> []" by (auto simp: allNoChange_def)
  note defs = run1h_def run1h_try_def Let_def bump_skipped_def save_def
  show "requests (run1h cfg env s) = requests s"
    using a ne by (simp add: defs)
  show "suspended (run1h cfg env s) = suspended s"
    using a ne by (simp add: defs)
  show "\<not> executing (run1h cfg env s) T1h"
    using a ne by (simp add: defs)
  show "js_get (buildNoChange1hRecord (recent_read env)) ''no_change'' = Some (JBool True)"
    by (simp add: buildNoChange1hRecord_def)
  {
    assume "fault env \<noteq> Some AtStoreSave"
    then show "run1h cfg env s =
            s\<lparr>saved := saved s @ [(T1h, now_ms env, buildNoChange1hRecord (recent_read env))],
              stats := (stats s)(T1h :=
                (stats s T1h)\<lparr>skipped := skipped (stats s T1h) + 1\<rparr>)\<rparr>"
      using a ne by (simp add: defs set_executing_def unset_after_set)
  }
  {
    assume "fault env = Some AtStoreSave"
    then show "run1h cfg env s =
            s\<lparr>stats := (stats s)(T1h :=
                (stats s T1h)\<lparr>errors := errors (stats s T1h) + 1\<rparr>)\<rparr>"
      using a ne by (simp add: defs set_executing_def bump_errors_def unset_after_set)
  }
qed

theorem no_change_skips_analysis_witness:
  "(\<not> executing (start demo_cfg new_scheduler) T2min \<and>
    isAllowed (schedule demo_cfg) (clock_now env_same) \<and> base_enabled demo_cfg \<and>
    fault env_same \<noteq> Some AtReader \<and> has_comparer demo_cfg \<and>
    allIdentical (screenshots_read env_same)) \<and>
   fault env_same \<noteq> Some AtCollector \<and> fault env_same \<noteq> Some AtStoreSave \<and>
   requests (run2min demo_cfg env_same (start demo_cfg new_scheduler)) =
     requests (start demo_cfg new_scheduler) \<and>
   skipped (stats (run2min demo_cfg env_same (start demo_cfg new_scheduler)) T2min) = 1 \<and>
   length (saved (run2min demo_cfg env_same (start demo_cfg new_scheduler))) = 1 \<and>
   fault (env_same\<lparr>fault := Some AtStoreSave\<rparr>) = Some AtStoreSave \<and>
   saved (run2min demo_cfg (env_same\<lparr>fault := Some AtStoreSave\<rparr>)
            (start demo_cfg new_scheduler)) = [] \<and>
   errors (stats (run2min demo_cfg (env_same\<lparr>fault := Some AtStoreSave\<rparr>)
                    (start demo_cfg new_scheduler)) T2min) = 1 \<and>
   (\<not> executing (start demo_cfg new_scheduler) T10min \<and>
    fault env_idle_children \<noteq> Some AtStoreRead \<and>
    allNoChange (recent_read env_idle_children) = Inr True) \<and>
   requests (run10min demo_cfg env_idle_children (start demo_cfg new_scheduler)) =
     requests (start demo_cfg new_scheduler) \<and>
   skipped (stats (run10min demo_cfg env_idle_children (start demo_cfg new_scheduler)) T10min) = 1 \<and>
   \<not> executing (start demo_cfg new_scheduler) T1h \<and>
   requests (run1h demo_cfg env_idle_children (start demo_cfg new_scheduler)) =
     requests (start demo_cfg new_scheduler) \<and>
   skipped (stats (run1h demo_cfg env_idle_children (start demo_cfg new_scheduler)) T1h) = 1"
proof -
  let ?s = "start demo_cfg new_scheduler"
  let ?bad = "env_same\<lparr>fault := Some AtStoreSave\<rparr>"
  have al: "isAllowed (schedule demo_cfg) (clock_now env_same)"
    "isAllowed (schedule demo_cfg) (clock_now env_idle_children)"
    "isAllowed (schedule demo_cfg) (clock_now ?bad)"
    by (simp_all add: isAllowed_def demo_cfg_def env_same_def env_idle_children_def demo_env_def)
  have ex: "\<not> executing ?s T2min" "\<not> executing ?s T10min" "\<not> executing ?s T1h"
    by (simp_all add: start_def new_scheduler_def)
  have cf: "base_enabled demo_cfg" "has_comparer demo_cfg"
    by (simp_all add: demo_cfg_def)
  have fl: "fault env_same = None" "fault env_idle_children = None"
    by (simp_all add: env_same_def env_idle_children_def demo_env_def)
  have id: "allIdentical (screenshots_read env_same)" "allIdentical (screenshots_read ?bad)"
    by (simp_all add: env_same_def demo_env_def shots_same_def)
  have nc: "allNoChange (recent_read env_idle_children) = Inr True"
    by (simp add: env_idle_children_def demo_env_def child_idle_def allNoChange_def)
  have st: "skipped (stats ?s T2min) = 0" "skipped (stats ?s T10min) = 0"
    "skipped (stats ?s T1h) = 0" "saved ?s = []" "errors (stats ?s T2min) = 0"
    by (simp_all add: start_def new_scheduler_def)
  note inst = no_change_skips_analysis [of ?s demo_cfg]
  have a: "requests (run2min demo_cfg env_same ?s) = requests ?s \<and>
      skipped (stats (run2min demo_cfg env_same ?s) T2min) = 1 \<and>
      length (saved (run2min demo_cfg env_same ?s)) = 1"
    using inst [of env_same] al ex cf fl id st by auto
  have a': "saved (run2min demo_cfg ?bad ?s) = [] \<and>
      errors (stats (run2min demo_cfg ?bad ?s) T2min) = 1"
    using inst [of ?bad] al ex cf id st by auto
  have b: "requests (run10min demo_cfg env_idle_children ?s) = requests ?s \<and>
      skipped (stats (run10min demo_cfg env_idle_children ?s) T10min) = 1"
    using inst [of env_idle_children] al ex cf fl nc st by auto
  have c: "requests (run1h demo_cfg env_idle_children ?s) = requests ?s \<and>
      skipped (stats (run1h demo_cfg env_idle_children ?s) T1h) = 1"
    using inst [of env_idle_children] al ex cf fl nc st by auto
  show ?thesis
    using a a' b c al ex cf fl id nc by simp
qed

section \<open>Mutual exclusion within a tier\<close>

lemma coherent_in_flight_le:
  "coherent s \<Longrightarrow> in_flight s u \<le> 1 \<and> (executing s u \<longleftrightarrow> in_flight s u = 1)"
  by (simp add: coherent_def)

text \<open>
  C3. A timer fire that finds its tier's flag set returns at once and leaves the whole state
  as it was: nothing is queued, saved, counted or requested. Hence, in every state that the
  events of the event loop can reach from a new scheduler, each tier has at most one
  invocation in flight, and has one exactly when its flag is set.
\<close>

theorem fire_dropped_while_executing:
  "(executing s t \<longrightarrow> run_tier cfg t env s = s \<and> step cfg (Tick t env) s = s) \<and>
   (coherent s \<longrightarrow>
      in_flight (run_events cfg es s) u \<le> 1 \<and>
      (executing (run_events cfg es s) u \<longleftrightarrow> in_flight (run_events cfg es s) u = 1)) \<and>
   in_flight (run_events cfg es new_scheduler) u \<le> 1 \<and>
   (executing (run_events cfg es new_scheduler) u \<longleftrightarrow>
      in_flight (run_events cfg es new_scheduler) u = 1)"
proof (intro conjI impI)
  assume "executing s t"
  then show "run_tier cfg t env s = s" "step cfg (Tick t env) s = s"
    by (simp_all add: run_tier_eq)
next
  assume "coherent s"
  then have "coherent (run_events cfg es s)" by (rule coherent_run_events)
  then show "in_flight (run_events cfg es s) u \<le> 1"
    "executing (run_events cfg es s) u \<longleftrightarrow> in_flight (run_events cfg es s) u = 1"
    using coherent_in_flight_le by blast+
next
  have "coherent (run_events cfg es new_scheduler)"
    using coherent_new_scheduler by (rule coherent_run_events)
  then show "in_flight (run_events cfg es new_scheduler) u \<le> 1"
    "executing (run_events cfg es new_scheduler) u \<longleftrightarrow>
       in_flight (run_events cfg es new_scheduler) u = 1"
    using coherent_in_flight_le by blast+
qed

lemma demo_busy_facts:
  "executing demo_busy T2min"
  "suspended demo_busy = [(T2min, 1770717900000)]"
  "isRunning demo_busy"
  "saved demo_busy = []"
  unfolding demo_busy_def by code_simp+

theorem fire_dropped_while_executing_witness:
  "executing demo_busy T2min \<and>
   run_tier demo_cfg T2min env_changed demo_busy = demo_busy \<and>
   coherent new_scheduler \<and>
   in_flight (run_events demo_cfg [Tick T2min env_changed, Tick T2min env_same] demo_busy) T2min = 1"
proof -
  have c: "coherent demo_busy"
    unfolding demo_busy_def using coherent_new_scheduler by (rule coherent_run_events)
  have e: "run_events demo_cfg [Tick T2min env_changed, Tick T2min env_same] demo_busy = demo_busy"
    using fire_dropped_while_executing [of demo_busy T2min demo_cfg env_changed "[]" T2min]
      fire_dropped_while_executing [of demo_busy T2min demo_cfg env_same "[]" T2min]
      demo_busy_facts(1)
    by simp
  show ?thesis
    using fire_dropped_while_executing [of demo_busy T2min demo_cfg env_changed "[]" T2min]
      demo_busy_facts(1) c coherent_new_scheduler e
    by simp
qed

section \<open>The flag after an invocation\<close>

text \<open>
  C8, as stated, fails: an invocation that finds the flag set returns at once and the flag
  is still set when it has returned, whether or not the time gate would have let it pass.
\<close>

theorem flag_after_dropped_invocation_counterexample:
  "executing demo_busy T2min \<and>
   executing (run2min demo_cfg env_changed demo_busy) T2min \<and>
   suspended (run2min demo_cfg env_changed demo_busy) = suspended demo_busy \<and>
   \<not> isAllowed (schedule demo_cfg) (clock_now (env_changed\<lparr>clock_now := \<lparr>day = Sun, hours = 10, minutes = 5\<rparr>\<rparr>)) \<and>
   executing (run2min demo_cfg (env_changed\<lparr>clock_now := \<lparr>day = Sun, hours = 10, minutes = 5\<rparr>\<rparr>) demo_busy) T2min"
  using demo_busy_facts(1)
  by (simp add: run2min_def isAllowed_def demo_cfg_def)

lemma tier_try_awaiting_now:
  "tier_try cfg t env s = (s', Awaiting n) \<Longrightarrow> n = now_ms env"
  by (cases t)
    (auto simp: run2min_try_def run10min_try_def run1h_try_def Let_def
      split: if_splits sum.splits bool.splits)

lemma coherent_idle:
  assumes "coherent s" and "suspended s = []"
  shows "\<not> any_executing s"
proof -
  have "\<not> executing s t" for t
    using assms(1) [unfolded coherent_def, rule_format, of t] assms(2)
    by (simp add: in_flight_def split: if_splits)
  then show ?thesis by (simp add: any_executing_def)
qed

text \<open>
  C8, amended. An invocation that the entry guard turns away (flag set, or time not
  allowed) changes nothing, so it leaves the flag as it found it. An invocation that enters
  with the flag clear either completes before returning, by an early return, the no-change
  path or a throw, and then the flag is clear, or it is suspended at its await with the flag
  set; when its awaited call settles, with a result or an error, the flag is clear. So in
  every reachable state in which no invocation is suspended all flags are clear.
\<close>

theorem flag_cleared_when_admitted_invocation_completes:
  "(executing s t \<or> \<not> isAllowed (schedule cfg) (clock_now env) \<longrightarrow> run_tier cfg t env s = s) \<and>
   (\<not> executing s t \<longrightarrow>
      \<not> executing (run_tier cfg t env s) t \<or>
      (executing (run_tier cfg t env s) t \<and>
       suspended (run_tier cfg t env s) = suspended s @ [(t, now_ms env)])) \<and>
   \<not> executing (resume cfg t now senv s) t \<and>
   (coherent s \<and> suspended (run_events cfg es s) = [] \<longrightarrow>
      \<not> any_executing (run_events cfg es s))"
proof (intro conjI impI)
  assume "executing s t \<or> \<not> isAllowed (schedule cfg) (clock_now env)"
  then show "run_tier cfg t env s = s" by (simp add: run_tier_eq)
next
  assume nex: "\<not> executing s t"
  show "\<not> executing (run_tier cfg t env s) t \<or>
      (executing (run_tier cfg t env s) t \<and>
       suspended (run_tier cfg t env s) = suspended s @ [(t, now_ms env)])"
  proof (cases "isAllowed (schedule cfg) (clock_now env)")
    case False
    then show ?thesis using nex by (simp add: run_tier_eq)
  next
    case True
    obtain s' f where tr: "tier_try cfg t env (set_executing t True s) = (s', f)"
      by (cases "tier_try cfg t env (set_executing t True s)")
    from tier_try_frame [OF tr]
    have fr: "executing s' = (executing s)(t := True)" "suspended s' = suspended s"
      by simp_all
    have run: "run_tier cfg t env s = leave_try t (s', f)"
      using nex True tr by (simp add: run_tier_eq)
    show ?thesis
    proof (cases f)
      case Returned
      then show ?thesis by (simp add: run)
    next
      case (Threw e)
      then show ?thesis by (simp add: run)
    next
      case (Awaiting n)
      then have "n = now_ms env" using tr tier_try_awaiting_now by blast
      then show ?thesis using Awaiting fr by (simp add: run)
    qed
  qed
next
  obtain s' f where ag: "after_generate cfg t now senv s = (s', f)"
    by (cases "after_generate cfg t now senv s")
  from after_generate_frame [OF ag] have "\<forall>n. f \<noteq> Awaiting n" by simp
  then show "\<not> executing (resume cfg t now senv s) t"
    by (cases f) (simp_all add: resume_def ag)
next
  assume "coherent s \<and> suspended (run_events cfg es s) = []"
  then show "\<not> any_executing (run_events cfg es s)"
    using coherent_run_events coherent_idle by blast
qed

theorem flag_cleared_when_admitted_invocation_completes_witness:
  "\<not> executing (start demo_cfg new_scheduler) T2min \<and>
   \<not> executing (run_tier demo_cfg T2min env_same (start demo_cfg new_scheduler)) T2min \<and>
   executing (run_tier demo_cfg T2min env_changed (start demo_cfg new_scheduler)) T2min \<and>
   suspended (run_tier demo_cfg T2min env_changed (start demo_cfg new_scheduler)) =
     [(T2min, now_ms env_changed)] \<and>
   \<not> executing (resume demo_cfg T2min 1770717900000 senv_failing demo_busy) T2min \<and>
   coherent new_scheduler \<and>
   suspended (run_events demo_cfg
      [Start, Tick T2min env_changed, Settled T2min senv_failing] new_scheduler) = [] \<and>
   \<not> any_executing (run_events demo_cfg
      [Start, Tick T2min env_changed, Settled T2min senv_failing] new_scheduler)"
proof -
  let ?s = "start demo_cfg new_scheduler"
  have n: "\<not> executing ?s T2min" "suspended ?s = []"
    by (simp_all add: start_def new_scheduler_def)
  have a: "\<not> executing (run_tier demo_cfg T2min env_same ?s) T2min"
    by code_simp
  have b: "executing (run_tier demo_cfg T2min env_changed ?s) T2min"
    by code_simp
  have e: "suspended (run_events demo_cfg
      [Start, Tick T2min env_changed, Settled T2min senv_failing] new_scheduler) = []"
    by code_simp
  show ?thesis
    using flag_cleared_when_admitted_invocation_completes
        [of ?s T2min demo_cfg env_changed 1770717900000 senv_failing "[]"]
      flag_cleared_when_admitted_invocation_completes
        [of demo_busy T2min demo_cfg env_changed 1770717900000 senv_failing "[]"]
      flag_cleared_when_admitted_invocation_completes
        [of new_scheduler T2min demo_cfg env_changed 1770717900000 senv_failing
          "[Start, Tick T2min env_changed, Settled T2min senv_failing]"]
      n a b e coherent_new_scheduler
    by simp
qed

section \<open>What the upper tiers persist\<close>

text \<open>
  C1, as stated, fails: the scheduler runs no aggregation over the children. With the
  same child records, the saved 10-minute and 1-hour records carry whatever timeline the
  external response contains (here an entry labelled X of 10 minutes, which no child
  mentions), and no timeline or distribution field at all when the response is not JSON.
\<close>

theorem timeline_taken_from_response_counterexample:
  "map (\<lambda>(t, n, r). (t, js_get r ''activity_timeline''))
     (saved (run_events demo_cfg
        [Start, Tick T10min env_children, Settled T10min (senv_replying demo_text_json)]
        new_scheduler)) =
     [(T10min, Some (JArr [JObj [(''label'', JStr [0x0058]), (''minutes'', JNum 10)]]))] \<and>
   map (\<lambda>(t, n, r). (t, js_get r ''activity_timeline''))
     (saved (run_events demo_cfg
        [Start, Tick T10min env_children, Settled T10min (senv_replying demo_text_plain)]
        new_scheduler)) =
     [(T10min, None)] \<and>
   map (\<lambda>(t, n, r). (t, js_get r ''time_distribution'', r))
     (saved (run_events demo_cfg
        [Start, Tick T1h env_children, Settled T1h (senv_replying demo_text_plain)]
        new_scheduler)) =
     [(T1h, None, JObj [(''raw_response'', JStr demo_text_plain)])]"
  by code_simp

text \<open>
  C1, amended. A 10-minute or 1-hour execution that reaches the external analysis step
  (flag clear, time allowed, children present and not all no-change, and the store read, the
  focus-window collector and the prompt builder returning normally) hands the child records,
  the history records and the focus-window text to the prompt builder, sends the result as
  the request and is suspended. When the call returns a text and neither
  \<open>tokenTracker.record\<close> nor \<open>summaryStore.save\<close> throws, the record saved, under the
  timestamp taken before the call, is exactly the parsed response or the raw-response
  fallback, whatever the children were, and the tier's \<open>count\<close> is incremented; when one of
  the two throws, nothing is saved and the tier's \<open>errors\<close> is incremented. Either way the
  flag is cleared.
\<close>

theorem upper_tier_saves_parsed_response:
  "(\<not> executing s T10min \<and> isAllowed (schedule cfg) (clock_now env) \<and>
    fault env \<noteq> Some AtStoreRead \<and> recent_read env \<noteq> [] \<and>
    (has_comparer cfg \<longrightarrow> allNoChange (recent_read env) = Inr False) \<and>
    \<not> (has_collector cfg \<and> fault env = Some AtCollector) \<and> fault env \<noteq> Some AtBuilder
    \<longrightarrow> run10min cfg env s =
          s\<lparr>executing := (executing s)(T10min := True),
            requests := requests s @
              [(T10min, Build10min (recent_read env) (history_read env)
                          (if has_collector cfg then window_text env else []))],
            suspended := suspended s @ [(T10min, now_ms env)]\<rparr>) \<and>
   (\<not> executing s T1h \<and> isAllowed (schedule cfg) (clock_now env) \<and>
    fault env \<noteq> Some AtStoreRead \<and> recent_read env \<noteq> [] \<and>
    (has_comparer cfg \<longrightarrow> allNoChange (recent_read env) = Inr False) \<and>
    \<not> (has_collector cfg \<and> fault env = Some AtCollector) \<and> fault env \<noteq> Some AtBuilder
    \<longrightarrow> run1h cfg env s =
          s\<lparr>executing := (executing s)(T1h := True),
            requests := requests s @
              [(T1h, Build1h (recent_read env) (history_read env)
                       (if has_collector cfg then window_text env else []))],
            suspended := suspended s @ [(T1h, now_ms env)]\<rparr>) \<and>
   (outcome (generate (client cfg) (api senv)) = Inr r \<and>
    \<not> (has_token_tracker cfg \<and> usageMetadata r \<noteq> None \<and> settle_fault senv = Some AtTokenTracker) \<and>
    settle_fault senv \<noteq> Some AtStoreSave
    \<longrightarrow> resume cfg t now senv s =
          s\<lparr>executing := (executing s)(t := False),
            stats := (stats s)(t := (stats s t)\<lparr>count := count (stats s t) + 1\<rparr>),
            saved := saved s @ [(t, now, parseResponse (json_parse senv) (response_text r))]\<rparr>) \<and>
   (outcome (generate (client cfg) (api senv)) = Inr r \<and>
    ((has_token_tracker cfg \<and> usageMetadata r \<noteq> None \<and> settle_fault senv = Some AtTokenTracker) \<or>
     settle_fault senv = Some AtStoreSave)
    \<longrightarrow> resume cfg t now senv s =
          s\<lparr>executing := (executing s)(t := False),
            stats := (stats s)(t := (stats s t)\<lparr>errors := errors (stats s t) + 1\<rparr>)\<rparr>)"
proof (intro conjI impI)
  assume "\<not> executing s T10min \<and> isAllowed (schedule cfg) (clock_now env) \<and>
    fault env \<noteq> Some AtStoreRead \<and> recent_read env \<noteq> [] \<and>
    (has_comparer cfg \<longrightarrow> allNoChange (recent_read env) = Inr False) \<and>
    \<not> (has_collector cfg \<and> fault env = Some AtCollector) \<and> fault env \<noteq> Some AtBuilder"
  then show "run10min cfg env s =
          s\<lparr>executing := (executing s)(T10min := True),
            requests := requests s @
              [(T10min, Build10min (recent_read env) (history_read env)
                          (if has_collector cfg then window_text env else []))],
            suspended := suspended s @ [(T10min, now_ms env)]\<rparr>"
    by (cases "has_comparer cfg") (auto simp: run10min_def run10min_try_def Let_def set_executing_def)
next
  assume "\<not> executing s T1h \<and> isAllowed (schedule cfg) (clock_now env) \<and>
    fault env \<noteq> Some AtStoreRead \<and> recent_read env \<noteq> [] \<and>
    (has_comparer cfg \<longrightarrow> allNoChange (recent_read env) = Inr False) \<and>
    \<not> (has_collector cfg \<and> fault env = Some AtCollector) \<and> fault env \<noteq> Some AtBuilder"
  then show "run1h cfg env s =
          s\<lparr>executing := (executing s)(T1h := True),
            requests := requests s @
              [(T1h, Build1h (recent_read env) (history_read env)
                       (if has_collector cfg then window_text env else []))],
            suspended := suspended s @ [(T1h, now_ms env)]\<rparr>"
    by (cases "has_comparer cfg") (auto simp: run1h_def run1h_try_def Let_def set_executing_def)
next
  assume "outcome (generate (client cfg) (api senv)) = Inr r \<and>
    \<not> (has_token_tracker cfg \<and> usageMetadata r \<noteq> None \<and> settle_fault senv = Some AtTokenTracker) \<and>
    settle_fault senv \<noteq> Some AtStoreSave"
  then show "resume cfg t now senv s =
          s\<lparr>executing := (executing s)(t := False),
            stats := (stats s)(t := (stats s t)\<lparr>count := count (stats s t) + 1\<rparr>),
            saved := saved s @ [(t, now, parseResponse (json_parse senv) (response_text r))]\<rparr>"
    by (auto simp: resume_def after_generate_def Let_def set_executing_def bump_count_def save_def)
next
  assume "outcome (generate (client cfg) (api senv)) = Inr r \<and>
    ((has_token_tracker cfg \<and> usageMetadata r \<noteq> None \<and> settle_fault senv = Some AtTokenTracker) \<or>
     settle_fault senv = Some AtStoreSave)"
  then show "resume cfg t now senv s =
          s\<lparr>executing := (executing s)(t := False),
            stats := (stats s)(t := (stats s t)\<lparr>errors := errors (stats s t) + 1\<rparr>)\<rparr>"
    by (auto simp: resume_def after_generate_def Let_def set_executing_def bump_errors_def)
qed

theorem upper_tier_saves_parsed_response_witness:
  "\<not> executing (start demo_cfg new_scheduler) T10min \<and>
   isAllowed (schedule demo_cfg) (clock_now env_children) \<and>
   fault env_children = None \<and>
   allNoChange (recent_read env_children) = Inr False \<and>
   requests (run10min demo_cfg env_children (start demo_cfg new_scheduler)) =
     [(T10min, Build10min [child_active] [] [])] \<and>
   requests (run1h demo_cfg env_children (start demo_cfg new_scheduler)) =
     [(T1h, Build1h [child_active] [] [])] \<and>
   outcome (generate (client demo_cfg) (api (senv_replying demo_text_json))) =
     Inr \<lparr>response_text = demo_text_json, usageMetadata = None\<rparr> \<and>
   settle_fault (senv_replying demo_text_json) = None \<and>
   saved (resume demo_cfg T10min 1770717900000 (senv_replying demo_text_json)
            (start demo_cfg new_scheduler)) =
     [(T10min, 1770717900000,
       JObj [(''activity_timeline'',
              JArr [JObj [(''label'', JStr [0x0058]), (''minutes'', JNum 10)]])])] \<and>
   settle_fault (senv_replying demo_text_json\<lparr>settle_fault := Some AtStoreSave\<rparr>) =
     Some AtStoreSave \<and>
   saved (resume demo_cfg T10min 1770717900000
            (senv_replying demo_text_json\<lparr>settle_fault := Some AtStoreSave\<rparr>)
            (start demo_cfg new_scheduler)) = [] \<and>
   errors (stats (resume demo_cfg T10min 1770717900000
            (senv_replying demo_text_json\<lparr>settle_fault := Some AtStoreSave\<rparr>)
            (start demo_cfg new_scheduler)) T10min) = 1"
proof -
  let ?s = "start demo_cfg new_scheduler"
  let ?bad = "senv_replying demo_text_json\<lparr>settle_fault := Some AtStoreSave\<rparr>"
  have h: "\<not> executing ?s T10min" "\<not> executing ?s T1h" "requests ?s = []" "saved ?s = []"
    "errors (stats ?s T10min) = 0"
    by (simp_all add: start_def new_scheduler_def)
  have al: "isAllowed (schedule demo_cfg) (clock_now env_children)"
    by (simp add: isAllowed_def demo_cfg_def env_children_def demo_env_def)
  have e: "fault env_children = None" "recent_read env_children = [child_active]"
    "history_read env_children = []" "window_text env_children = []"
    by (simp_all add: env_children_def demo_env_def)
  have nc: "allNoChange [child_active] = Inr False"
    by (simp add: allNoChange_def child_active_def)
  have g: "outcome (generate (client demo_cfg) (api (senv_replying demo_text_json))) =
     Inr \<lparr>response_text = demo_text_json, usageMetadata = None\<rparr>"
    by code_simp
  have g': "api ?bad = api (senv_replying demo_text_json)"
    by simp
  have p: "parseResponse (json_parse (senv_replying demo_text_json)) demo_text_json =
      JObj [(''activity_timeline'',
              JArr [JObj [(''label'', JStr [0x0058]), (''minutes'', JNum 10)]])]"
    by code_simp
  have sf: "settle_fault (senv_replying demo_text_json) = None"
    by (simp add: senv_replying_def)
  have good: "saved (resume demo_cfg T10min 1770717900000 (senv_replying demo_text_json) ?s) =
     [(T10min, 1770717900000,
       JObj [(''activity_timeline'',
              JArr [JObj [(''label'', JStr [0x0058]), (''minutes'', JNum 10)]])])] \<and>
     requests (run10min demo_cfg env_children ?s) = [(T10min, Build10min [child_active] [] [])] \<and>
     requests (run1h demo_cfg env_children ?s) = [(T1h, Build1h [child_active] [] [])]"
    using upper_tier_saves_parsed_response
        [of ?s demo_cfg env_children "senv_replying demo_text_json"
          "\<lparr>response_text = demo_text_json, usageMetadata = None\<rparr>" T10min 1770717900000]
      h al e nc g p sf
    by simp
  have bad: "saved (resume demo_cfg T10min 1770717900000 ?bad ?s) = [] \<and>
     errors (stats (resume demo_cfg T10min 1770717900000 ?bad ?s) T10min) = 1"
    using upper_tier_saves_parsed_response
        [of ?s demo_cfg env_children ?bad
          "\<lparr>response_text = demo_text_json, usageMetadata = None\<rparr>" T10min 1770717900000]
      h g g'
    by simp
  show ?thesis
    using good bad h al e nc g sf by simp
qed

section \<open>Stopping the scheduler\<close>

lemma resume_fields:
  "timer (resume cfg t now senv s) = timer s"
  "isRunning (resume cfg t now senv s) = isRunning s"
proof -
  obtain s' f where ag: "after_generate cfg t now senv s = (s', f)"
    by (cases "after_generate cfg t now senv s")
  from after_generate_frame [OF ag]
  show "timer (resume cfg t now senv s) = timer s"
    "isRunning (resume cfg t now senv s) = isRunning s"
    by (simp_all add: resume_def ag leave_try_fields)
qed

lemma step_timers_off:
  assumes "isRunning s" and "\<forall>t. \<not> timer s t"
  shows "isRunning (step cfg e s) \<and> (\<forall>t. \<not> timer (step cfg e s) t)"
proof (cases e)
  case Start
  then show ?thesis using assms by (simp add: start_def)
next
  case (Tick t env)
  then show ?thesis using assms by simp
next
  case (Settled t senv)
  then show ?thesis using assms by (simp add: resume_fields split: list.splits)
qed

lemma run_events_timers_off:
  "isRunning s \<Longrightarrow> \<forall>t. \<not> timer s t \<Longrightarrow>
     isRunning (run_events cfg es s) \<and> (\<forall>t. \<not> timer (run_events cfg es s) t)"
proof (induction es arbitrary: s)
  case Nil
  then show ?case by simp
next
  case (Cons e es)
  then show ?case using step_timers_off [of s cfg e] by simp
qed

lemma run_events_without_ticks:
  "isRunning s \<Longrightarrow> \<forall>t. \<not> timer s t \<Longrightarrow>
     run_events cfg (filter (\<lambda>e. \<not> is_tick e) es) s = run_events cfg es s"
proof (induction es arbitrary: s)
  case Nil
  then show ?case by simp
next
  case (Cons e es)
  show ?case
  proof (cases e)
    case (Tick t env)
    then show ?thesis using Cons by (simp add: is_tick_def)
  next
    case Start
    then show ?thesis
      using Cons.IH [of "step cfg e s"] step_timers_off [OF Cons.prems, of cfg e]
      by (simp add: is_tick_def)
  next
    case (Settled t senv)
    then show ?thesis
      using Cons.IH [of "step cfg e s"] step_timers_off [OF Cons.prems, of cfg e]
      by (simp add: is_tick_def)
  qed
qed

lemma run_events_append:
  "run_events cfg (es @ fs) s = run_events cfg fs (run_events cfg es s)"
  by (induction es arbitrary: s) simp_all

lemma any_executing_isRunning_update [simp]:
  "any_executing (s\<lparr>isRunning := b\<rparr>) = any_executing s"
  by (simp add: any_executing_def)

lemma stop_wait_returns:
  "stop_wait cfg s bs = (Some s', d) \<Longrightarrow>
     \<not> any_executing s' \<and> \<not> isRunning s' \<and> set d \<subseteq> {100} \<and>
     s' = (run_events cfg (concat (take (length d) bs)) s)\<lparr>isRunning := False\<rparr>"
proof (induction bs arbitrary: s s' d)
  case Nil
  then show ?case by (auto split: if_splits)
next
  case (Cons b bs)
  show ?case
  proof (cases "any_executing s")
    case False
    with Cons.prems show ?thesis by auto
  next
    case True
    obtain r ds where rec: "stop_wait cfg (run_events cfg b s) bs = (r, ds)"
      by (cases "stop_wait cfg (run_events cfg b s) bs")
    with True Cons.prems have eq: "r = Some s'" "d = 100 # ds" by simp_all
    from Cons.IH [of "run_events cfg b s" s' ds] rec eq
    have ih: "\<not> any_executing s'" "\<not> isRunning s'" "set ds \<subseteq> {100}"
      "s' = (run_events cfg (concat (take (length ds) bs)) (run_events cfg b s))\<lparr>isRunning := False\<rparr>"
      by blast+
    have c: "concat (take (length d) (b # bs)) = b @ concat (take (length ds) bs)"
      using eq(2) by simp
    have "s' = (run_events cfg (concat (take (length d) (b # bs))) s)\<lparr>isRunning := False\<rparr>"
      unfolding c run_events_append by (rule ih(4))
    moreover have "set d \<subseteq> {100}" using ih(3) eq(2) by simp
    ultimately show ?thesis using ih(1,2) by blast
  qed
qed

lemma stop_wait_without_ticks:
  "isRunning s \<Longrightarrow> \<forall>t. \<not> timer s t \<Longrightarrow>
     stop_wait cfg s (map (filter (\<lambda>e. \<not> is_tick e)) bs) = stop_wait cfg s bs"
proof (induction bs arbitrary: s)
  case Nil
  then show ?case by simp
next
  case (Cons b bs)
  have q: "isRunning (run_events cfg b s) \<and> (\<forall>t. \<not> timer (run_events cfg b s) t)"
    using run_events_timers_off Cons.prems by blast
  show ?case
    using Cons.IH [of "run_events cfg b s"] q Cons.prems
    by (simp add: run_events_without_ticks)
qed

lemma stop_wait_drains:
  "coherent s \<Longrightarrow> suspended (run_events cfg (concat bs) s) = [] \<Longrightarrow>
     \<exists>s' d. stop_wait cfg s bs = (Some s', d)"
proof (induction bs arbitrary: s)
  case Nil
  then have "\<not> any_executing s" using coherent_idle by simp
  then show ?case by simp
next
  case (Cons b bs)
  have c: "coherent (run_events cfg b s)"
    using Cons.prems(1) by (rule coherent_run_events)
  have "suspended (run_events cfg (concat bs) (run_events cfg b s)) = []"
    using Cons.prems(2) by (simp add: run_events_append)
  from Cons.IH [OF c this] show ?case
    by (cases "any_executing s") auto
qed

lemma coherent_clear_timers:
  "coherent s \<Longrightarrow> coherent (clear_timers s)"
  by (simp add: coherent_def clear_timers_def in_flight_def)

text \<open>
  C4. Called on a running scheduler, \<open>stop\<close> first clears the three timers, after which no
  timer fire has any effect while it waits; it then checks the three flags, sleeping 100 ms
  between checks, and returns only from a check that finds every flag clear. Apart from
  clearing the timers and finally \<open>isRunning\<close>, it changes nothing: the state it returns in
  is the one the pipelines' own events produced, so no invocation is cut short. If the
  invocations in flight all settle, \<open>stop\<close> returns.
\<close>

theorem stop_cancels_timers_then_drains:
  "isRunning s \<longrightarrow>
     (\<forall>t. \<not> timer (clear_timers s) t) \<and>
     stop cfg s bs = stop_wait cfg (clear_timers s) bs \<and>
     stop cfg s (map (filter (\<lambda>e. \<not> is_tick e)) bs) = stop cfg s bs \<and>
     (\<forall>s' d. stop cfg s bs = (Some s', d) \<longrightarrow>
        \<not> any_executing s' \<and> \<not> isRunning s' \<and> (\<forall>t. \<not> timer s' t) \<and> set d \<subseteq> {100} \<and>
        s' = (run_events cfg (concat (take (length d) bs)) (clear_timers s))\<lparr>isRunning := False\<rparr>) \<and>
     (any_executing s \<longrightarrow> stop cfg s [] = (None, [100])) \<and>
     (coherent s \<and> suspended (run_events cfg (concat bs) (clear_timers s)) = [] \<longrightarrow>
        (\<exists>s' d. stop cfg s bs = (Some s', d)))"
proof
  assume run: "isRunning s"
  have off: "\<forall>t. \<not> timer (clear_timers s) t" and run': "isRunning (clear_timers s)"
    using run by (simp_all add: clear_timers_def)
  have st: "stop cfg s bs = stop_wait cfg (clear_timers s) bs" for bs
    using run by (simp add: stop_def)
  have nt: "stop cfg s (map (filter (\<lambda>e. \<not> is_tick e)) bs) = stop cfg s bs"
    using stop_wait_without_ticks [OF run' off] by (simp add: st)
  have ret: "\<not> any_executing s' \<and> \<not> isRunning s' \<and> (\<forall>t. \<not> timer s' t) \<and> set d \<subseteq> {100} \<and>
        s' = (run_events cfg (concat (take (length d) bs)) (clear_timers s))\<lparr>isRunning := False\<rparr>"
    if r: "stop cfg s bs = (Some s', d)" for s' d
  proof -
    from r have w: "stop_wait cfg (clear_timers s) bs = (Some s', d)" by (simp add: st)
    note a = stop_wait_returns [OF w]
    have "\<forall>t. \<not> timer (run_events cfg (concat (take (length d) bs)) (clear_timers s)) t"
      using run_events_timers_off [OF run' off] by blast
    then have "\<forall>t. \<not> timer s' t" using a by simp
    with a show ?thesis by blast
  qed
  have busy: "any_executing s \<Longrightarrow> stop cfg s [] = (None, [100])"
    by (simp add: st) (simp add: clear_timers_def any_executing_def)
  have live: "\<exists>s' d. stop cfg s bs = (Some s', d)"
    if "coherent s \<and> suspended (run_events cfg (concat bs) (clear_timers s)) = []"
    using that stop_wait_drains [of "clear_timers s" cfg bs] coherent_clear_timers
    by (simp add: st)
  show "(\<forall>t. \<not> timer (clear_timers s) t) \<and>
     stop cfg s bs = stop_wait cfg (clear_timers s) bs \<and>
     stop cfg s (map (filter (\<lambda>e. \<not> is_tick e)) bs) = stop cfg s bs \<and>
     (\<forall>s' d. stop cfg s bs = (Some s', d) \<longrightarrow>
        \<not> any_executing s' \<and> \<not> isRunning s' \<and> (\<forall>t. \<not> timer s' t) \<and> set d \<subseteq> {100} \<and>
        s' = (run_events cfg (concat (take (length d) bs)) (clear_timers s))\<lparr>isRunning := False\<rparr>) \<and>
     (any_executing s \<longrightarrow> stop cfg s [] = (None, [100])) \<and>
     (coherent s \<and> suspended (run_events cfg (concat bs) (clear_timers s)) = [] \<longrightarrow>
        (\<exists>s' d. stop cfg s bs = (Some s', d)))"
    using off st nt ret busy live by (simp add: clear_timers_def)
qed

theorem stop_cancels_timers_then_drains_witness:
  "isRunning demo_busy \<and> any_executing demo_busy \<and>
   timer demo_busy T2min \<and>
   (\<forall>t. \<not> timer (clear_timers demo_busy) t) \<and>
   stop demo_cfg demo_busy [] = (None, [100]) \<and>
   snd (stop demo_cfg demo_busy
     [[Tick T2min env_changed], [Settled T2min (senv_replying demo_text_plain)]]) = [100, 100] \<and>
   (\<exists>s'. fst (stop demo_cfg demo_busy
       [[Tick T2min env_changed], [Settled T2min (senv_replying demo_text_plain)]]) = Some s' \<and>
      \<not> any_executing s' \<and> \<not> isRunning s' \<and>
      saved s' = [(T2min, 1770717900000, JObj [(''raw_response'', JStr demo_text_plain)])])"
proof -
  let ?bs = "[[Tick T2min env_changed], [Settled T2min (senv_replying demo_text_plain)]]"
  have b: "any_executing demo_busy"
    using demo_busy_facts(1) by (simp add: any_executing_def)
  have t: "timer demo_busy T2min"
    unfolding demo_busy_def by code_simp
  have d: "snd (stop demo_cfg demo_busy ?bs) = [100, 100]"
    unfolding demo_busy_def by code_simp
  have sv: "map_option saved (fst (stop demo_cfg demo_busy ?bs)) =
      Some [(T2min, 1770717900000, JObj [(''raw_response'', JStr demo_text_plain)])]"
    unfolding demo_busy_def by code_simp
  then obtain s' where s': "fst (stop demo_cfg demo_busy ?bs) = Some s'"
    "saved s' = [(T2min, 1770717900000, JObj [(''raw_response'', JStr demo_text_plain)])]"
    by (cases "fst (stop demo_cfg demo_busy ?bs)") auto
  have r: "stop demo_cfg demo_busy ?bs = (Some s', [100, 100])"
    using s'(1) d by (cases "stop demo_cfg demo_busy ?bs") simp
  have ne: "\<not> any_executing s' \<and> \<not> isRunning s'"
    using stop_cancels_timers_then_drains [of demo_busy demo_cfg ?bs] demo_busy_facts(3) r
    by blast
  note here = stop_cancels_timers_then_drains [of demo_busy demo_cfg "[]", THEN mp,
      OF demo_busy_facts(3)]
  have off: "\<forall>t. \<not> timer (clear_timers demo_busy) t"
    using here by (rule conjunct1)
  have none: "stop demo_cfg demo_busy [] = (None, [100])"
    using here b by blast
  have ex: "\<exists>s'. fst (stop demo_cfg demo_busy ?bs) = Some s' \<and>
      \<not> any_executing s' \<and> \<not> isRunning s' \<and>
      saved s' = [(T2min, 1770717900000, JObj [(''raw_response'', JStr demo_text_plain)])]"
    using s' ne by blast
  show ?thesis
    using demo_busy_facts(3) b t off none d ex by blast
qed

end
